theory Spec2Isabelle
  imports Main "HOL-Library.Word" "HOL-Library.Sublist" "HOL-Library.Multiset"
begin

section \<open>JavaScript strings\<close>

text \<open>
  A JavaScript string is a sequence of UTF-16 code units; \<open>length\<close>, \<open>slice\<close>,
  \<open>startsWith\<close>, \<open>split\<close> and \<open>trim\<close> all count and compare code units. A string is
  therefore a list of 16-bit words, and \<open>lit\<close> turns an ASCII literal of the source
  into such a list.
\<close>

type_synonym jsstring = "16 word list"

definition lit :: "string \<Rightarrow> jsstring" where
  "lit s = map (\<lambda>c. of_nat (of_char c)) s"

text \<open>\<open>String.prototype.startsWith\<close> with the default position 0.\<close>

definition startsWith :: "jsstring \<Rightarrow> jsstring \<Rightarrow> bool" where
  "startsWith s p = prefix p s"

text \<open>
  \<open>String.prototype.trim\<close> removes the ECMAScript WhiteSpace and LineTerminator code
  points from both ends: TAB, LF, VT, FF, CR, SPACE, NBSP, U+1680, U+2000..U+200A,
  U+2028, U+2029, U+202F, U+205F, U+3000 and the BOM U+FEFF.
\<close>

definition is_js_space :: "16 word \<Rightarrow> bool" where
  "is_js_space c = (c = 0x09 \<or> c = 0x0A \<or> c = 0x0B \<or> c = 0x0C \<or> c = 0x0D \<or> c = 0x20
     \<or> c = 0xA0 \<or> c = 0x1680 \<or> (0x2000 \<le> c \<and> c \<le> 0x200A) \<or> c = 0x2028 \<or> c = 0x2029
     \<or> c = 0x202F \<or> c = 0x205F \<or> c = 0x3000 \<or> c = 0xFEFF)"

definition trim :: "jsstring \<Rightarrow> jsstring" where
  "trim s = rev (dropWhile is_js_space (rev (dropWhile is_js_space s)))"

section \<open>JavaScript values and JSON.parse\<close>

text \<open>
  The values \<open>JSON.parse\<close> can return, together with \<open>undefined\<close> (the value of a
  missing property). A number is kept as the decimal literal it was read from:
  \<open>JNum m e\<close> stands for the double nearest to \<open>m * 10 ^ e\<close>. An object keeps its
  members in source order; a later duplicate key overrides an earlier one.
\<close>

datatype jsvalue =
    JUndefined
  | JNull
  | JBool bool
  | JNum int int
  | JStr jsstring
  | JArr "jsvalue list"
  | JObj "(jsstring \<times> jsvalue) list"

text \<open>
  ToBoolean. A decimal literal denotes a falsy number when the nearest double is zero:
  when \<open>m = 0\<close>, or when \<open>|m| * 10 ^ e\<close> is at most \<open>2 ^ -1075\<close>, half of the smallest
  subnormal (a tie rounds to the even mantissa, which is zero).
\<close>

definition rounds_to_zero :: "int \<Rightarrow> int \<Rightarrow> bool" where
  "rounds_to_zero m e = (m = 0 \<or> (e < 0 \<and> \<bar>m\<bar> * 2 ^ 1075 \<le> 10 ^ nat (- e)))"

fun truthy :: "jsvalue \<Rightarrow> bool" where
  "truthy JUndefined = False"
| "truthy JNull = False"
| "truthy (JBool b) = b"
| "truthy (JNum m e) = (\<not> rounds_to_zero m e)"
| "truthy (JStr s) = (s \<noteq> [])"
| "truthy (JArr _) = True"
| "truthy (JObj _) = True"

text \<open>
  Property read \<open>v.k\<close> for a name \<open>k\<close> that no built-in prototype defines (the source
  reads \<open>session_id\<close>, \<open>token\<close>, \<open>error\<close>, \<open>status\<close>, \<open>documents\<close> and \<open>chunk_count\<close>):
  \<open>None\<close> is the TypeError raised on \<open>null\<close> and \<open>undefined\<close>; a primitive or an array
  has no such property, an object yields its last member of that name.
\<close>

fun get_prop :: "jsvalue \<Rightarrow> jsstring \<Rightarrow> jsvalue option" where
  "get_prop JUndefined k = None"
| "get_prop JNull k = None"
| "get_prop (JObj ms) k = Some (case map_of (rev ms) k of None \<Rightarrow> JUndefined | Some v \<Rightarrow> v)"
| "get_prop v k = Some JUndefined"

subsection \<open>Lexical grammar of JSON\<close>

datatype tok = TLBrace | TRBrace | TLBrack | TRBrack | TColon | TComma | TScalar jsvalue

definition is_json_ws :: "16 word \<Rightarrow> bool" where
  "is_json_ws c = (c = 0x20 \<or> c = 0x09 \<or> c = 0x0A \<or> c = 0x0D)"

definition is_digit :: "16 word \<Rightarrow> bool" where
  "is_digit c = (0x30 \<le> c \<and> c \<le> 0x39)"

definition hex_val :: "16 word \<Rightarrow> 16 word option" where
  "hex_val c =
     (if 0x30 \<le> c \<and> c \<le> 0x39 then Some (c - 0x30)
      else if 0x41 \<le> c \<and> c \<le> 0x46 then Some (c - 0x37)
      else if 0x61 \<le> c \<and> c \<le> 0x66 then Some (c - 0x57)
      else None)"

definition hex4 :: "16 word \<Rightarrow> 16 word \<Rightarrow> 16 word \<Rightarrow> 16 word \<Rightarrow> 16 word option" where
  "hex4 a b c d =
     (case (hex_val a, hex_val b, hex_val c, hex_val d) of
        (Some x, Some y, Some z, Some w) \<Rightarrow> Some (x * 0x1000 + y * 0x100 + z * 0x10 + w)
      | _ \<Rightarrow> None)"

text \<open>The single-character escapes \<open>\" \\ \/ \b \f \n \r \t\<close>.\<close>

definition unescape :: "16 word \<Rightarrow> 16 word option" where
  "unescape e =
     (if e = 0x22 then Some 0x22 else if e = 0x5C then Some 0x5C
      else if e = 0x2F then Some 0x2F else if e = 0x62 then Some 0x08
      else if e = 0x66 then Some 0x0C else if e = 0x6E then Some 0x0A
      else if e = 0x72 then Some 0x0D else if e = 0x74 then Some 0x09
      else None)"

definition cons_str :: "16 word \<Rightarrow> (jsstring \<times> jsstring) option \<Rightarrow> (jsstring \<times> jsstring) option" where
  "cons_str c r = (case r of None \<Rightarrow> None | Some (str, rest) \<Rightarrow> Some (c # str, rest))"

text \<open>
  The characters of a string literal after its opening quote: the decoded string and
  the text after the closing quote. A raw control character, an unknown escape or a
  missing closing quote is a syntax error.
\<close>

fun scan_string :: "jsstring \<Rightarrow> (jsstring \<times> jsstring) option" where
  "scan_string [] = None"
| "scan_string (c # s) =
     (if c = 0x22 then Some ([], s)
      else if c = 0x5C then
        (case s of
           [] \<Rightarrow> None
         | e # s1 \<Rightarrow>
             if e = 0x75 then
               (case s1 of
                  h1 # h2 # h3 # h4 # s2 \<Rightarrow>
                    (case hex4 h1 h2 h3 h4 of
                       None \<Rightarrow> None
                     | Some u \<Rightarrow> cons_str u (scan_string s2))
                | _ \<Rightarrow> None)
             else
               (case unescape e of
                  None \<Rightarrow> None
                | Some u \<Rightarrow> cons_str u (scan_string s1)))
      else if c < 0x20 then None
      else cons_str c (scan_string s))"

definition digits_val :: "jsstring \<Rightarrow> int" where
  "digits_val ds = foldl (\<lambda>acc c. 10 * acc + uint (c - 0x30)) 0 ds"

text \<open>
  A number literal: \<open>-? (0 | [1-9][0-9]*) (. [0-9]+)? ([eE] [+-]? [0-9]+)?\<close>.
  Each part returns what it read and the remaining text.
\<close>

definition scan_int :: "jsstring \<Rightarrow> (jsstring \<times> jsstring) option" where
  "scan_int s =
     (case s of
        [] \<Rightarrow> None
      | c # r \<Rightarrow>
          if c = 0x30 then Some ([c], r)
          else if is_digit c then Some (takeWhile is_digit s, dropWhile is_digit s)
          else None)"

definition scan_frac :: "jsstring \<Rightarrow> (jsstring \<times> jsstring) option" where
  "scan_frac s =
     (case s of
        c # r \<Rightarrow>
          if c = 0x2E then
            (if takeWhile is_digit r = [] then None
             else Some (takeWhile is_digit r, dropWhile is_digit r))
          else Some ([], s)
      | [] \<Rightarrow> Some ([], s))"

definition scan_exp_digits :: "bool \<Rightarrow> jsstring \<Rightarrow> (int \<times> jsstring) option" where
  "scan_exp_digits neg s =
     (if takeWhile is_digit s = [] then None
      else Some ((if neg then - digits_val (takeWhile is_digit s)
                  else digits_val (takeWhile is_digit s)), dropWhile is_digit s))"

definition scan_exp :: "jsstring \<Rightarrow> (int \<times> jsstring) option" where
  "scan_exp s =
     (case s of
        c # r \<Rightarrow>
          if c = 0x65 \<or> c = 0x45 then
            (case r of
               g # r1 \<Rightarrow>
                 if g = 0x2B then scan_exp_digits False r1
                 else if g = 0x2D then scan_exp_digits True r1
                 else scan_exp_digits False r
             | [] \<Rightarrow> None)
          else Some (0, s)
      | [] \<Rightarrow> Some (0, s))"

definition scan_unsigned :: "bool \<Rightarrow> jsstring \<Rightarrow> (jsvalue \<times> jsstring) option" where
  "scan_unsigned neg s =
     (case scan_int s of
        None \<Rightarrow> None
      | Some (ip, s1) \<Rightarrow>
          (case scan_frac s1 of
             None \<Rightarrow> None
           | Some (fp, s2) \<Rightarrow>
               (case scan_exp s2 of
                  None \<Rightarrow> None
                | Some (ex, s3) \<Rightarrow>
                    Some (JNum ((if neg then - 1 else 1) * digits_val (ip @ fp))
                               (ex - int (length fp)), s3))))"

definition scan_number :: "jsstring \<Rightarrow> (jsvalue \<times> jsstring) option" where
  "scan_number s =
     (case s of
        [] \<Rightarrow> None
      | c # r \<Rightarrow> if c = 0x2D then scan_unsigned True r else scan_unsigned False s)"

definition cons_tok :: "tok \<Rightarrow> tok list option \<Rightarrow> tok list option" where
  "cons_tok t r = map_option (Cons t) r"

text \<open>
  The token sequence of a JSON text, or \<open>None\<close> on a lexical error. White space
  between tokens is space, tab, line feed and carriage return only.
\<close>

function json_lex :: "jsstring \<Rightarrow> tok list option" where
  "json_lex [] = Some []"
| "json_lex (c # s) =
     (if is_json_ws c then json_lex s
      else if c = 0x7B then cons_tok TLBrace (json_lex s)
      else if c = 0x7D then cons_tok TRBrace (json_lex s)
      else if c = 0x5B then cons_tok TLBrack (json_lex s)
      else if c = 0x5D then cons_tok TRBrack (json_lex s)
      else if c = 0x3A then cons_tok TColon (json_lex s)
      else if c = 0x2C then cons_tok TComma (json_lex s)
      else if c = 0x22 then
        (case scan_string s of
           None \<Rightarrow> None
         | Some (str, rest) \<Rightarrow> cons_tok (TScalar (JStr str)) (json_lex rest))
      else if c = 0x2D \<or> is_digit c then
        (case scan_number (c # s) of
           None \<Rightarrow> None
         | Some (v, rest) \<Rightarrow> cons_tok (TScalar v) (json_lex rest))
      else if startsWith (c # s) (lit ''true'') then cons_tok (TScalar (JBool True)) (json_lex (drop 3 s))
      else if startsWith (c # s) (lit ''false'') then cons_tok (TScalar (JBool False)) (json_lex (drop 4 s))
      else if startsWith (c # s) (lit ''null'') then cons_tok (TScalar JNull) (json_lex (drop 3 s))
      else None)"
  by pat_completeness auto
termination
proof -
  have str: "length rest < Suc (length s)" if "scan_string s = Some (str, rest)" for s str rest
    using that
  proof (induction s arbitrary: str rest rule: scan_string.induct)
    case 1
    then show ?case by simp
  next
    case (2 c s)
    then show ?case
      by (fastforce simp: cons_str_def split: if_splits list.splits option.splits)
  qed
  have int: "length rest < length s" if "scan_int s = Some (ip, rest)" for s ip rest
  proof (cases s)
    case Nil
    with that show ?thesis by (simp add: scan_int_def)
  next
    case (Cons c r)
    with that length_dropWhile_le [of is_digit r] show ?thesis
      by (auto simp: scan_int_def split: if_splits)
  qed
  have frac: "length rest \<le> length s" if "scan_frac s = Some (fp, rest)" for s fp rest
  proof (cases s)
    case Nil
    with that show ?thesis by (simp add: scan_frac_def)
  next
    case (Cons c r)
    with that length_dropWhile_le [of is_digit r] show ?thesis
      by (auto simp: scan_frac_def split: if_splits)
  qed
  have expd: "length rest \<le> length s" if "scan_exp_digits neg s = Some (ex, rest)" for neg s ex rest
    using that length_dropWhile_le [of is_digit s]
    by (auto simp: scan_exp_digits_def split: if_splits)
  have exp: "length rest \<le> length s" if "scan_exp s = Some (ex, rest)" for s ex rest
    using that
    by (auto simp: scan_exp_def split: list.splits if_splits dest!: expd)
  have uns: "length rest < length s" if "scan_unsigned neg s = Some (v, rest)" for neg s v rest
    using that
    by (fastforce simp: scan_unsigned_def split: option.splits prod.splits dest: int frac exp)
  have num: "length rest < length s" if "scan_number s = Some (v, rest)" for s v rest
    using that
    by (fastforce simp: scan_number_def split: list.splits if_splits dest: uns)
  show ?thesis
    by (relation "measure length") (auto dest: str num)
qed

subsection \<open>Syntactic grammar of JSON\<close>

text \<open>
  The token sequence is read by a pushdown automaton. A frame of the stack is an open
  array with its elements so far, an open object with its members so far, or an open
  object whose next member has its key and awaits its value.
\<close>

datatype frame =
    FArr "jsvalue list"
  | FObj "(jsstring \<times> jsvalue) list"
  | FKey "(jsstring \<times> jsvalue) list" jsstring

datatype pstate =
    PValue          \<comment> \<open>a value must follow\<close>
  | PValueOrClose   \<comment> \<open>after \<open>[\<close>: a value or \<open>]\<close>\<close>
  | PKeyOrClose     \<comment> \<open>after \<open>{\<close>: a key or \<open>}\<close>\<close>
  | PKey            \<comment> \<open>after \<open>,\<close> in an object: a key\<close>
  | PColon          \<comment> \<open>after a key: \<open>:\<close>\<close>
  | PAfter          \<comment> \<open>after a value inside a container: \<open>,\<close> or the closing bracket\<close>
  | PDone jsvalue   \<comment> \<open>the top-level value is complete\<close>

fun complete_value :: "jsvalue \<Rightarrow> frame list \<Rightarrow> (pstate \<times> frame list) option" where
  "complete_value v [] = Some (PDone v, [])"
| "complete_value v (FArr es # st) = Some (PAfter, FArr (es @ [v]) # st)"
| "complete_value v (FKey ms k # st) = Some (PAfter, FObj (ms @ [(k, v)]) # st)"
| "complete_value v (FObj ms # st) = None"

fun open_value :: "tok \<Rightarrow> frame list \<Rightarrow> (pstate \<times> frame list) option" where
  "open_value (TScalar v) st = complete_value v st"
| "open_value TLBrace st = Some (PKeyOrClose, FObj [] # st)"
| "open_value TLBrack st = Some (PValueOrClose, FArr [] # st)"
| "open_value _ st = None"

fun close_array :: "frame list \<Rightarrow> (pstate \<times> frame list) option" where
  "close_array (FArr es # st) = complete_value (JArr es) st"
| "close_array _ = None"

fun close_object :: "frame list \<Rightarrow> (pstate \<times> frame list) option" where
  "close_object (FObj ms # st) = complete_value (JObj ms) st"
| "close_object _ = None"

fun read_key :: "tok \<Rightarrow> frame list \<Rightarrow> (pstate \<times> frame list) option" where
  "read_key (TScalar (JStr k)) (FObj ms # st) = Some (PColon, FKey ms k # st)"
| "read_key _ _ = None"

fun after_comma :: "frame list \<Rightarrow> (pstate \<times> frame list) option" where
  "after_comma (FArr es # st) = Some (PValue, FArr es # st)"
| "after_comma (FObj ms # st) = Some (PKey, FObj ms # st)"
| "after_comma _ = None"

fun pstep :: "pstate \<Rightarrow> frame list \<Rightarrow> tok \<Rightarrow> (pstate \<times> frame list) option" where
  "pstep PValue st t = open_value t st"
| "pstep PValueOrClose st t = (if t = TRBrack then close_array st else open_value t st)"
| "pstep PKeyOrClose st t = (if t = TRBrace then close_object st else read_key t st)"
| "pstep PKey st t = read_key t st"
| "pstep PColon st t = (if t = TColon then Some (PValue, st) else None)"
| "pstep PAfter st t =
     (if t = TComma then after_comma st
      else if t = TRBrack then close_array st
      else if t = TRBrace then close_object st
      else None)"
| "pstep (PDone v) st t = None"

fun prun :: "pstate \<Rightarrow> frame list \<Rightarrow> tok list \<Rightarrow> (pstate \<times> frame list) option" where
  "prun p st [] = Some (p, st)"
| "prun p st (t # ts) = (case pstep p st t of None \<Rightarrow> None | Some (p', st') \<Rightarrow> prun p' st' ts)"

text \<open>\<open>JSON.parse\<close>: \<open>None\<close> is the SyntaxError it throws.\<close>

definition JSON_parse :: "jsstring \<Rightarrow> jsvalue option" where
  "JSON_parse s =
     (case json_lex s of
        None \<Rightarrow> None
      | Some ts \<Rightarrow>
          (case prun PValue [] ts of
             Some (PDone v, _) \<Rightarrow> Some v
           | _ \<Rightarrow> None))"

section \<open>lib/api: streamMessage\<close>

text \<open>
  What \<open>streamMessage\<close> can raise: the SyntaxError of \<open>JSON.parse\<close>, the TypeError of
  a property read on \<open>null\<close>, \<^verbatim>\<open>new Error(parsed.error || "Unknown error")\<close> with the
  value handed to the constructor, \<^verbatim>\<open>new Error(`API Error ${status}: ${errorText}`)\<close>
  with its two parts, \<^verbatim>\<open>new Error("No response body")\<close>, and the rejection of \<open>fetch\<close>
  or of \<open>reader.read()\<close>.
\<close>

datatype exn =
    SyntaxError
  | TypeError
  | StreamError jsvalue
  | ApiError nat jsstring
  | NoResponseBody
  | NetworkFailure

subsection \<open>The request\<close>

text \<open>
  \<^verbatim>\<open>const effectiveMessage =
    (message.trim() || (imageData && imageData.trim())) ? message.trim() : " ";\<close>
  An optional argument that was not passed is \<open>None\<close>. \<open>imageData && imageData.trim()\<close>
  is falsy for \<open>undefined\<close>, for the empty string and for a string of white space.
\<close>

definition image_provided :: "jsstring option \<Rightarrow> bool" where
  "image_provided imageData = (case imageData of None \<Rightarrow> False | Some d \<Rightarrow> d \<noteq> [] \<and> trim d \<noteq> [])"

definition effectiveMessage :: "jsstring \<Rightarrow> jsstring option \<Rightarrow> jsstring" where
  "effectiveMessage message imageData =
     (if trim message \<noteq> [] \<or> image_provided imageData then trim message else lit '' '')"

text \<open>
  A message of the conversation as \<open>ChatBox\<close> builds it. A \<open>timestamp\<close> is the time
  value of \<open>new Date()\<close>; an optional field that is \<open>undefined\<close> is \<open>None\<close>.
\<close>

datatype role = User | Assistant

record ChatMessage =
  role :: role
  content :: jsstring
  timestamp :: int
  has_image :: "bool option"
  image_data :: "jsstring option"
  image_format :: "jsstring option"

record MultimodalChatRequest =
  message :: jsstring
  session_id :: "jsstring option"
  image_prop :: "jsstring option"
  image_format :: "jsstring option"

text \<open>
  \<^verbatim>\<open>const requestBody = { message: effectiveMessage, session_id: sessionId };
  if (imageData && imageData.trim()) {
    requestBody.image = imageData;
    requestBody.image_format = imageFormat || "png";
  }\<close>
\<close>

definition requestBody :: "jsstring \<Rightarrow> jsstring option \<Rightarrow> jsstring option \<Rightarrow> jsstring option
    \<Rightarrow> MultimodalChatRequest" where
  "requestBody msg sessionId imageData imageFormat =
     (if image_provided imageData
      then \<lparr> message = effectiveMessage msg imageData, session_id = sessionId,
             image_prop = imageData,
             image_format = Some (case imageFormat of
                                    None \<Rightarrow> lit ''png''
                                  | Some f \<Rightarrow> if f = [] then lit ''png'' else f) \<rparr>
      else \<lparr> message = effectiveMessage msg imageData, session_id = sessionId,
             image_prop = None, image_format = None \<rparr>)"

subsection \<open>The text decoder\<close>

text \<open>
  \<^verbatim>\<open>const decoder = new TextDecoder();\<close> and \<^verbatim>\<open>decoder.decode(value, { stream: true })\<close>:
  the UTF-8 decoder of the Encoding Standard, with replacement of malformed input by
  U+FFFD. It reads one byte at a time and keeps, between calls, the code point under
  construction, the bytes seen and needed, and the bounds of the next byte; the
  \<open>TextDecoder\<close> drops a byte order mark that is the first code point of the stream.
  The loop never makes the final call without \<open>stream\<close>, so the bytes of an unfinished
  character at the end of the stream are never decoded.
\<close>

type_synonym byte = "8 word"

record text_decoder =
  code_point :: int
  bytes_seen :: nat
  bytes_needed :: nat
  lower_boundary :: byte
  upper_boundary :: byte
  bom_seen :: bool

definition new_TextDecoder :: text_decoder where
  "new_TextDecoder =
     \<lparr> code_point = 0, bytes_seen = 0, bytes_needed = 0,
       lower_boundary = 0x80, upper_boundary = 0xBF, bom_seen = False \<rparr>"

text \<open>The code units of a code point: itself, or a surrogate pair.\<close>

definition code_units :: "int \<Rightarrow> jsstring" where
  "code_units cp =
     (if cp < 0x10000 then [of_int cp]
      else [of_int (0xD800 + (cp - 0x10000) div 0x400), of_int (0xDC00 + (cp - 0x10000) mod 0x400)])"

definition emit :: "text_decoder \<Rightarrow> int \<Rightarrow> text_decoder \<times> jsstring" where
  "emit d cp = (d\<lparr>bom_seen := True\<rparr>, if \<not> bom_seen d \<and> cp = 0xFEFF then [] else code_units cp)"

definition reset :: "text_decoder \<Rightarrow> text_decoder" where
  "reset d = d\<lparr>code_point := 0, bytes_seen := 0, bytes_needed := 0,
               lower_boundary := 0x80, upper_boundary := 0xBF\<rparr>"

text \<open>A byte read when no character is under construction.\<close>

definition lead_byte :: "text_decoder \<Rightarrow> byte \<Rightarrow> text_decoder \<times> jsstring" where
  "lead_byte d b =
     (if b \<le> 0x7F then emit d (uint b)
      else if 0xC2 \<le> b \<and> b \<le> 0xDF then
        (d\<lparr>bytes_needed := 1, code_point := uint b mod 0x20\<rparr>, [])
      else if 0xE0 \<le> b \<and> b \<le> 0xEF then
        (d\<lparr>lower_boundary := (if b = 0xE0 then 0xA0 else lower_boundary d),
           upper_boundary := (if b = 0xED then 0x9F else upper_boundary d),
           bytes_needed := 2, code_point := uint b mod 0x10\<rparr>, [])
      else if 0xF0 \<le> b \<and> b \<le> 0xF4 then
        (d\<lparr>lower_boundary := (if b = 0xF0 then 0x90 else lower_boundary d),
           upper_boundary := (if b = 0xF4 then 0x8F else upper_boundary d),
           bytes_needed := 3, code_point := uint b mod 0x08\<rparr>, [])
      else emit d 0xFFFD)"

text \<open>
  One byte. A byte outside the bounds ends the character under construction with
  U+FFFD and is then read again as a first byte.
\<close>

definition decode_byte :: "text_decoder \<Rightarrow> byte \<Rightarrow> text_decoder \<times> jsstring" where
  "decode_byte d b =
     (if bytes_needed d = 0 then lead_byte d b
      else if b < lower_boundary d \<or> upper_boundary d < b then
        (case emit (reset d) 0xFFFD of
           (d1, out1) \<Rightarrow> (case lead_byte d1 b of (d2, out2) \<Rightarrow> (d2, out1 @ out2)))
      else if bytes_seen d + 1 \<noteq> bytes_needed d then
        (d\<lparr>lower_boundary := 0x80, upper_boundary := 0xBF,
           code_point := code_point d * 0x40 + uint b mod 0x40,
           bytes_seen := bytes_seen d + 1\<rparr>, [])
      else emit (reset d) (code_point d * 0x40 + uint b mod 0x40))"

text \<open>\<open>decoder.decode(value, { stream: true })\<close>: the decoder afterwards and the text.\<close>

fun decode :: "text_decoder \<Rightarrow> byte list \<Rightarrow> text_decoder \<times> jsstring" where
  "decode d [] = (d, [])"
| "decode d (b # bs) =
     (case decode_byte d b of
        (d1, out1) \<Rightarrow> (case decode d1 bs of (d2, out2) \<Rightarrow> (d2, out1 @ out2)))"

text \<open>The bytes of an ASCII literal.\<close>

definition ascii :: "string \<Rightarrow> byte list" where
  "ascii s = map (\<lambda>c. of_nat (of_char c)) s"

subsection \<open>The read loop\<close>

text \<open>
  \<open>buffer.split("\n")\<close>: the pieces between line feeds, always at least one piece.
\<close>

fun split_nl :: "jsstring \<Rightarrow> jsstring list" where
  "split_nl [] = [[]]"
| "split_nl (c # s) =
     (if c = 0x0A then [] # split_nl s
      else (case split_nl s of [] \<Rightarrow> [[c]] | l # ls \<Rightarrow> (c # l) # ls))"

text \<open>
  The variables the loop over the lines reads and writes: \<open>currentEvent\<close> and
  \<open>sessionIdRef.current\<close> (\<open>JUndefined\<close> when no session id was passed).
\<close>

record line_state =
  currentEvent :: jsstring
  sessionIdRef :: jsvalue

text \<open>
  What the generator does that its caller or the console can observe: a value it
  yields, and a \<^verbatim>\<open>console.error("Failed to parse SSE data:", data, e)\<close>.
\<close>

datatype out = Yield jsvalue | ConsoleError jsstring exn

text \<open>
  The body of the \<open>try\<close> block for one data line:
  \<^verbatim>\<open>const parsed = JSON.parse(data);
  if (currentEvent === "metadata") { sessionIdRef.current = parsed.session_id; }
  else if (currentEvent === "token") { yield parsed.token || ""; }
  else if (currentEvent === "done") { return; }
  else if (currentEvent === "error") { throw new Error(parsed.error || "Unknown error"); }\<close>
  It completes normally (with the new \<open>sessionIdRef.current\<close>), yields, returns from
  the generator, or throws.
\<close>

datatype try_result = Normal jsvalue | Yields jsvalue | Returns | Throws exn

definition or_else :: "jsvalue \<Rightarrow> jsvalue \<Rightarrow> jsvalue" where
  "or_else v d = (if truthy v then v else d)"

definition try_body :: "line_state \<Rightarrow> jsstring \<Rightarrow> try_result" where
  "try_body st data =
     (case JSON_parse data of
        None \<Rightarrow> Throws SyntaxError
      | Some parsed \<Rightarrow>
          if currentEvent st = lit ''metadata'' then
            (case get_prop parsed (lit ''session_id'') of
               None \<Rightarrow> Throws TypeError
             | Some v \<Rightarrow> Normal v)
          else if currentEvent st = lit ''token'' then
            (case get_prop parsed (lit ''token'') of
               None \<Rightarrow> Throws TypeError
             | Some v \<Rightarrow> Yields (or_else v (JStr [])))
          else if currentEvent st = lit ''done'' then Returns
          else if currentEvent st = lit ''error'' then
            (case get_prop parsed (lit ''error'') of
               None \<Rightarrow> Throws TypeError
             | Some v \<Rightarrow> Throws (StreamError (or_else v (JStr (lit ''Unknown error'')))))
          else Normal (sessionIdRef st))"

text \<open>
  One iteration of \<^verbatim>\<open>for (const line of lines)\<close>. The \<open>catch\<close> clause encloses the
  whole \<open>try\<close> block, so everything thrown there, the \<open>Error\<close> of an \<open>error\<close> event
  included, is logged and the loop goes on. The result is what was observed, whether
  the generator returned, and the new state.
\<close>

definition process_line :: "line_state \<Rightarrow> jsstring \<Rightarrow> out list \<times> bool \<times> line_state" where
  "process_line st line =
     (if trim line = [] then ([], False, st)
      else if startsWith line (lit ''event: '') then
        ([], False, st\<lparr>currentEvent := trim (drop 7 line)\<rparr>)
      else if startsWith line (lit ''data: '') then
        (case try_body st (drop 6 line) of
           Normal v \<Rightarrow> ([], False, st\<lparr>sessionIdRef := v\<rparr>)
         | Yields v \<Rightarrow> ([Yield v], False, st)
         | Returns \<Rightarrow> ([], True, st)
         | Throws e \<Rightarrow> ([ConsoleError (drop 6 line) e], False, st))
      else ([], False, st))"

fun for_lines :: "line_state \<Rightarrow> jsstring list \<Rightarrow> out list \<times> bool \<times> line_state" where
  "for_lines st [] = ([], False, st)"
| "for_lines st (l # ls) =
     (case process_line st l of
        (os, True, st') \<Rightarrow> (os, True, st')
      | (os, False, st') \<Rightarrow>
          (case for_lines st' ls of (os', r, st'') \<Rightarrow> (os @ os', r, st'')))"

text \<open>
  \<^verbatim>\<open>while (true) {
    const { done, value } = await reader.read();
    if (done) break;
    buffer += decoder.decode(value, { stream: true });
    const lines = buffer.split("\n");
    buffer = lines.pop() || "";
    for (const line of lines) { ... }
  }\<close>
  The reader delivers the byte chunks of the list and then \<open>done\<close>. The result is what
  was observed, whether the generator returned at a \<open>done\<close> event (otherwise it ended
  with the stream), and the final buffer and state.
\<close>

fun read_loop :: "text_decoder \<Rightarrow> jsstring \<Rightarrow> line_state \<Rightarrow> byte list list
    \<Rightarrow> out list \<times> bool \<times> jsstring \<times> line_state" where
  "read_loop decoder buffer st [] = ([], False, buffer, st)"
| "read_loop decoder buffer st (v # values) =
     (case decode decoder v of
        (decoder', text) \<Rightarrow>
          (case for_lines st (butlast (split_nl (buffer @ text))) of
             (os, True, st') \<Rightarrow> (os, True, last (split_nl (buffer @ text)), st')
           | (os, False, st') \<Rightarrow>
               (case read_loop decoder' (last (split_nl (buffer @ text))) st' values of
                  (os', r, b, st'') \<Rightarrow> (os @ os', r, b, st''))))"

text \<open>
  The response of \<open>fetch\<close>: it rejects, or it resolves with a status that is not ok and
  a body text, with no body, with a body read chunk by chunk to its end, or with a body
  whose reader rejects after the chunks of the list.
\<close>

datatype response =
    FetchRejected
  | NotOk nat jsstring
  | NoBody
  | Body "byte list list"
  | BrokenBody "byte list list"

text \<open>How the generator ends: it returns, or it throws to its caller.\<close>

datatype completion = Finished | Raised exn

record stream_run =
  sent :: MultimodalChatRequest
  observed :: "out list"
  completion :: completion

definition streamMessage :: "jsstring \<Rightarrow> jsstring option \<Rightarrow> jsstring option \<Rightarrow> jsstring option
    \<Rightarrow> response \<Rightarrow> stream_run" where
  "streamMessage msg sessionId imageData imageFormat resp =
     (let body = requestBody msg sessionId imageData imageFormat in
      case resp of
        FetchRejected \<Rightarrow> \<lparr> sent = body, observed = [], completion = Raised NetworkFailure \<rparr>
      | NotOk status errorText \<Rightarrow>
          \<lparr> sent = body, observed = [], completion = Raised (ApiError status errorText) \<rparr>
      | NoBody \<Rightarrow> \<lparr> sent = body, observed = [], completion = Raised NoResponseBody \<rparr>
      | Body chunks \<Rightarrow>
          \<lparr> sent = body,
            observed = fst (read_loop new_TextDecoder []
               \<lparr> currentEvent = [],
                 sessionIdRef = (case sessionId of None \<Rightarrow> JUndefined | Some i \<Rightarrow> JStr i) \<rparr>
               chunks),
            completion = Finished \<rparr>
      | BrokenBody chunks \<Rightarrow>
          (case read_loop new_TextDecoder []
               \<lparr> currentEvent = [],
                 sessionIdRef = (case sessionId of None \<Rightarrow> JUndefined | Some i \<Rightarrow> JStr i) \<rparr>
               chunks of
             (os, r, b, st) \<Rightarrow>
               \<lparr> sent = body, observed = os,
                 completion = (if r then Finished else Raised NetworkFailure) \<rparr>))"

text \<open>The values the caller's \<^verbatim>\<open>for await\<close> loop receives, in order.\<close>

fun yielded :: "out list \<Rightarrow> jsvalue list" where
  "yielded [] = []"
| "yielded (Yield v # os) = v # yielded os"
| "yielded (ConsoleError d e # os) = yielded os"

text \<open>Two projections used to compare runs: a run without its final buffer, and the
  part of a pass over lines that does not depend on \<open>sessionIdRef\<close>.\<close>

definition drop_buffer :: "out list \<times> bool \<times> jsstring \<times> line_state \<Rightarrow> out list \<times> bool \<times> line_state" where
  "drop_buffer r = (case r of (os, b, buf, st) \<Rightarrow> (os, b, st))"

definition same_obs :: "out list \<times> bool \<times> line_state \<Rightarrow> out list \<times> bool \<times> line_state \<Rightarrow> bool" where
  "same_obs a b = (fst a = fst b \<and> fst (snd a) = fst (snd b)
                   \<and> currentEvent (snd (snd a)) = currentEvent (snd (snd b)))"

subsection \<open>The event stream\<close>

text \<open>The four events of the streamed answer (spec, section 6).\<close>

datatype kind = KMetadata | KToken | KDone | KError

fun kind_name :: "kind \<Rightarrow> jsstring" where
  "kind_name KMetadata = lit ''metadata''"
| "kind_name KToken = lit ''token''"
| "kind_name KDone = lit ''done''"
| "kind_name KError = lit ''error''"

text \<open>An event is its type and the text of its data line.\<close>

type_synonym sse_event = "kind \<times> jsstring"

text \<open>
  Modelled from the spec: the server that writes the stream is not among the sources.
  The spec leaves the wire format open; the framing here is the one \<open>streamMessage\<close>
  reads, a line \<open>event: <type>\<close>, a line \<open>data: <text>\<close> and an empty line. Every line
  is ended by a line feed, alone or after a carriage return.
\<close>

datatype line_end = LF | CRLF

fun cr :: "line_end \<Rightarrow> jsstring" where
  "cr LF = []"
| "cr CRLF = [0x0D]"

definition event_lines :: "sse_event \<Rightarrow> jsstring list" where
  "event_lines ev = [lit ''event: '' @ kind_name (fst ev), lit ''data: '' @ snd ev, []]"

definition wire :: "line_end \<Rightarrow> sse_event \<Rightarrow> jsstring" where
  "wire e ev = concat (map (\<lambda>l. l @ cr e @ [0x0A]) (event_lines ev))"

text \<open>The \<open>token\<close> field of a data text, when the text is JSON with a string there.\<close>

definition token_of :: "jsstring \<Rightarrow> jsstring option" where
  "token_of d =
     (case JSON_parse d of
        None \<Rightarrow> None
      | Some v \<Rightarrow> (case get_prop v (lit ''token'') of Some (JStr t) \<Rightarrow> Some t | _ \<Rightarrow> None))"

text \<open>
  A well-formed event: its data is one line; a \<open>token\<close> event carries a JSON value with
  a string \<open>token\<close> field; the data of a \<open>done\<close> event is JSON. The data of \<open>metadata\<close>
  and \<open>error\<close> events is not constrained.
\<close>

definition well_formed :: "sse_event \<Rightarrow> bool" where
  "well_formed ev =
     (0x0A \<notin> set (snd ev)
      \<and> (fst ev = KToken \<longrightarrow> token_of (snd ev) \<noteq> None)
      \<and> (fst ev = KDone \<longrightarrow> JSON_parse (snd ev) \<noteq> None))"

text \<open>
  The claim's side of the comparison: the \<open>token\<close> field values of the \<open>token\<close> events,
  in stream order, and those of the events before the first \<open>done\<close> event.
\<close>

definition token_values :: "sse_event list \<Rightarrow> jsstring list" where
  "token_values evs =
     concat (map (\<lambda>ev. case token_of (snd ev) of None \<Rightarrow> [] | Some t \<Rightarrow> [t])
       (filter (\<lambda>ev. fst ev = KToken) evs))"

definition tokens_before_done :: "sse_event list \<Rightarrow> jsstring list" where
  "tokens_before_done evs = token_values (takeWhile (\<lambda>ev. fst ev \<noteq> KDone) evs)"

text \<open>The values yielded by a pass over lines.\<close>

definition yields_of :: "line_state \<Rightarrow> jsstring list \<Rightarrow> jsvalue list" where
  "yields_of st ls = yielded (fst (for_lines st ls))"

section \<open>ChatBox: handleSubmit\<close>

record chat_state =
  messages :: "ChatMessage list"
  input :: jsstring
  isLoading :: bool
  isLoadingHistory :: bool
  isBackendAvailable :: bool
  selectedImageData :: jsstring
  selectedImageFormat :: jsstring

text \<open>
  What \<open>handleSubmit\<close> starts before it returns or awaits: nothing, the timer of the
  warning (\<open>setTimeout(..., 500)\<close>), or the call
  \<^verbatim>\<open>streamMessage(messageToSend, sessionId, imageDataToSend, imageFormatToSend)\<close>, whose
  first step is the \<open>fetch\<close> of the request.
\<close>

datatype submit_action =
    Nothing
  | WarnLater
  | Stream jsstring "jsstring option" jsstring jsstring

text \<open>\<open>s || undefined\<close> for a string.\<close>

definition or_undefined :: "jsstring \<Rightarrow> jsstring option" where
  "or_undefined s = (if s = [] then None else Some s)"

text \<open>
  \<^verbatim>\<open>const handleSubmit = async (e: React.FormEvent) => {
    e.preventDefault();
    if ((!input.trim() && !selectedImageData) || isLoading) return;
    if (!isBackendAvailable) {
      setIsLoading(true);
      setTimeout(() => { setMessages((prev) => [...prev, warning]); setIsLoading(false); }, 500);
      setInput(""); setSelectedImageData(""); setSelectedImageFormat("");
      return;
    }
    const userMessage = { role: "user", content: input.trim(), timestamp: new Date(),
      has_image: !!selectedImageData, image_data: selectedImageData || undefined,
      image_format: selectedImageFormat || undefined };
    setMessages((prev) => [...prev, userMessage]);
    const messageToSend = input.trim();
    const imageDataToSend = selectedImageData;
    const imageFormatToSend = selectedImageFormat;
    setInput(""); setSelectedImageData(""); setSelectedImageFormat(""); setIsLoading(true);
    const assistantMessage = { role: "assistant", content: "", timestamp: new Date() };
    setMessages((prev) => [...prev, assistantMessage]);
    try { ... for await (const token of streamMessage(messageToSend, sessionId,
                                                      imageDataToSend, imageFormatToSend)) ...\<close>
  The model is the handler up to this call: the state it leaves and what it started.
  \<open>now\<close> is the clock, \<open>sessionId\<close> the prop of the component.
\<close>

definition handleSubmit :: "int \<Rightarrow> jsstring option \<Rightarrow> chat_state \<Rightarrow> chat_state \<times> submit_action" where
  "handleSubmit now sessionId st =
     (if (trim (input st) = [] \<and> selectedImageData st = []) \<or> isLoading st then (st, Nothing)
      else if \<not> isBackendAvailable st then
        (st\<lparr>isLoading := True, input := [], selectedImageData := [], selectedImageFormat := []\<rparr>,
         WarnLater)
      else
        (st\<lparr>messages := messages st @
               [\<lparr> role = User, content = trim (input st), timestamp = now,
                   has_image = Some (selectedImageData st \<noteq> []),
                   image_data = or_undefined (selectedImageData st),
                   ChatMessage.image_format = or_undefined (selectedImageFormat st) \<rparr>,
                \<lparr> role = Assistant, content = [], timestamp = now,
                   has_image = None, image_data = None, ChatMessage.image_format = None \<rparr>],
             input := [], selectedImageData := [], selectedImageFormat := [], isLoading := True\<rparr>,
         Stream (trim (input st)) sessionId (selectedImageData st) (selectedImageFormat st)))"

text \<open>
  The callback of the timer: the warning that the backend is not connected is appended
  as an assistant message (\<open>warning\<close> is its text) and loading ends.
\<close>

definition warning_timeout :: "jsstring \<Rightarrow> int \<Rightarrow> chat_state \<Rightarrow> chat_state" where
  "warning_timeout warning now st =
     st\<lparr>messages := messages st @
           [\<lparr> role = Assistant, content = warning, timestamp = now,
               has_image = None, image_data = None, ChatMessage.image_format = None \<rparr>],
        isLoading := False\<rparr>"

text \<open>The request a started action sends, if any.\<close>

fun request_of :: "submit_action \<Rightarrow> MultimodalChatRequest option" where
  "request_of (Stream m sid img fmt) = Some (requestBody m sid (Some img) (Some fmt))"
| "request_of _ = None"

definition initial_chat_state :: chat_state where
  "initial_chat_state =
     \<lparr> messages = [], input = [], isLoading = False, isLoadingHistory = False,
       isBackendAvailable = True, selectedImageData = [], selectedImageFormat = [] \<rparr>"

section \<open>ImageUploader: handleFileSelect\<close>

record image_file =
  mime_type :: jsstring
  size_bytes :: nat

record uploader_state =
  preview :: "jsstring option"
  isDragging :: bool
  isHovered :: bool

text \<open>
  The two alerts (not an image file; larger than 10 MB), the read the handler starts
  and the callback \<open>onImageSelect(base64Data, format)\<close>, whose first argument is
  \<open>undefined\<close> (\<open>None\<close>) when the data URL has no comma.
\<close>

datatype alert = AlertNotImage | AlertTooLarge

datatype uploader_effect =
    Alert alert
  | ReadAsDataURL image_file
  | OnImageSelect "jsstring option" jsstring

text \<open>\<open>s.split(sep)\<close> for a separator of one code unit.\<close>

fun split_on :: "16 word \<Rightarrow> jsstring \<Rightarrow> jsstring list" where
  "split_on sep [] = [[]]"
| "split_on sep (c # s) =
     (if c = sep then [] # split_on sep s
      else (case split_on sep s of [] \<Rightarrow> [[c]] | l # ls \<Rightarrow> (c # l) # ls))"

text \<open>\<open>result.split(",")[1]\<close>\<close>

definition base64Data :: "jsstring \<Rightarrow> jsstring option" where
  "base64Data r = (case split_on 0x2C r of a # b # rest \<Rightarrow> Some b | _ \<Rightarrow> None)"

text \<open>
  \<^verbatim>\<open>result.match(/data:image\/([a-zA-Z+]+);base64/)\<close>: the first position where
  \<open>data:image/\<close> is followed by a non-empty run of letters and \<open>+\<close> and then by
  \<open>;base64\<close>; the run is the captured group. The run must be the longest one, since
  \<open>;\<close> is not in the class.
\<close>

definition is_format_char :: "16 word \<Rightarrow> bool" where
  "is_format_char c = ((0x61 \<le> c \<and> c \<le> 0x7A) \<or> (0x41 \<le> c \<and> c \<le> 0x5A) \<or> c = 0x2B)"

definition match_here :: "jsstring \<Rightarrow> jsstring option" where
  "match_here s =
     (if startsWith s (lit ''data:image/'') then
        (let rest = drop 11 s in
         if takeWhile is_format_char rest \<noteq> []
            \<and> startsWith (dropWhile is_format_char rest) (lit '';base64'')
         then Some (takeWhile is_format_char rest) else None)
      else None)"

fun formatMatch :: "jsstring \<Rightarrow> jsstring option" where
  "formatMatch [] = None"
| "formatMatch (c # s) =
     (case match_here (c # s) of Some f \<Rightarrow> Some f | None \<Rightarrow> formatMatch s)"

text \<open>
  \<^verbatim>\<open>reader.onload = (e) => {
    const result = e.target?.result as string;
    if (result) {
      const formatMatch = result.match(...);
      const format = formatMatch ? formatMatch[1] : "png";
      const base64Data = result.split(",")[1];
      setPreview(result);
      onImageSelect(base64Data, format);
    }
  }\<close>
\<close>

definition onload :: "jsstring option \<Rightarrow> uploader_state \<Rightarrow> uploader_state \<times> uploader_effect list" where
  "onload result st =
     (case result of
        None \<Rightarrow> (st, [])
      | Some r \<Rightarrow>
          if r = [] then (st, [])
          else (st\<lparr>preview := Some r\<rparr>,
                [OnImageSelect (base64Data r)
                   (case formatMatch r of None \<Rightarrow> lit ''png'' | Some f \<Rightarrow> f)]))"

text \<open>
  The read of the \<open>FileReader\<close>: it fails (no \<open>load\<close> event), or it loads with a result.
\<close>

datatype read_outcome = ReadFailed | ReadLoaded "jsstring option"

text \<open>
  \<^verbatim>\<open>const handleFileSelect = (file: File | null) => {
    if (!file) return;
    if (!file.type.startsWith("image/")) { alert(...); return; }
    if (file.size > 10 * 1024 * 1024) { alert(...); return; }
    const reader = new FileReader();
    reader.onload = ...;
    reader.readAsDataURL(file);
  }\<close>
  The result is the state once the read has ended, and what happened in order.
\<close>

definition image_handleFileSelect :: "image_file option \<Rightarrow> read_outcome \<Rightarrow> uploader_state
    \<Rightarrow> uploader_state \<times> uploader_effect list" where
  "image_handleFileSelect f rd st =
     (case f of
        None \<Rightarrow> (st, [])
      | Some fl \<Rightarrow>
          if \<not> startsWith (mime_type fl) (lit ''image/'') then (st, [Alert AlertNotImage])
          else if 10 * 1024 * 1024 < size_bytes fl then (st, [Alert AlertTooLarge])
          else
            (case rd of
               ReadFailed \<Rightarrow> (st, [ReadAsDataURL fl])
             | ReadLoaded result \<Rightarrow>
                 (case onload result st of (st', es) \<Rightarrow> (st', ReadAsDataURL fl # es))))"

section \<open>DocumentManager\<close>

record DocumentInfo =
  document_id :: jsstring
  source :: jsstring
  chunk_count :: int
  file_type :: "jsstring option"
  created_at :: "jsstring option"

datatype sort_type = Newest | Oldest | Name

datatype upload_mode = FileMode | UrlMode

text \<open>
  The texts the component shows. The literals of the source are Chinese; each
  constructor stands for one of them, with the values interpolated into it:
  \<^item> \<open>MsgLoadFailed\<close>: loading the document list failed (\<open>loadDocuments\<close>);
  \<^item> \<open>MsgUploadFailed\<close>: uploading the document failed (the fallback of \<open>handleFileSelect\<close>);
  \<^item> \<open>MsgInvalidUrl\<close>: please enter a valid URL;
  \<^item> \<open>MsgAddUrlFailed\<close>: adding the URL failed (the fallback of \<open>handleAddUrl\<close>);
  \<^item> \<open>MsgUploaded name\<close>: document \<open>name\<close> uploaded;
  \<^item> \<open>MsgUrlAdded url n\<close>: URL \<open>url\<close> added, \<open>n\<close> chunks processed, with
    \<open>n = firstDoc.chunk_count || 0\<close>;
  \<^item> \<open>Message m\<close>: the \<open>message\<close> of a caught \<open>Error\<close>;
  \<^item> \<open>EngineTypeError\<close>: the \<open>message\<close> of a TypeError raised by the engine, whose
    wording is the engine's;
  \<^item> \<open>StatusValue v\<close>: the value of a \<open>status\<close> field, handed to \<open>setError\<close> as it is.
\<close>

datatype ui_message =
    MsgLoadFailed
  | MsgUploadFailed
  | MsgInvalidUrl
  | MsgAddUrlFailed
  | MsgUploaded jsstring
  | MsgUrlAdded jsstring jsvalue
  | Message jsstring
  | EngineTypeError
  | StatusValue jsvalue

record manager_state =
  documents :: "DocumentInfo list"
  isLoading :: bool
  isUploading :: bool
  isDeleting :: "jsstring option"
  deleteConfirmOpen :: bool
  addDialogOpen :: bool
  uploadMode :: upload_mode
  docToDelete :: "jsstring option"
  error :: "ui_message option"
  successMsg :: "ui_message option"
  totalCount :: int
  totalChunks :: int
  urlInput :: jsstring
  isAddingUrl :: bool
  page :: int
  sortType :: sort_type

subsection \<open>sortedDocuments\<close>

text \<open>
  \<^verbatim>\<open>new Date(a.created_at || 0).getTime()\<close>: the time value of the date, \<open>None\<close> for
  the NaN of an invalid date. A missing or empty \<open>created_at\<close> gives \<open>new Date(0)\<close>, time
  0. Parsing a date string is the engine's; it is the parameter \<open>dateTime\<close>.
\<close>

definition getTime :: "(jsstring \<Rightarrow> int option) \<Rightarrow> DocumentInfo \<Rightarrow> int option" where
  "getTime dateTime a =
     (case created_at a of
        None \<Rightarrow> Some 0
      | Some s \<Rightarrow> if s = [] then Some 0 else dateTime s)"

text \<open>
  The comparator handed to \<open>sort\<close>:
  \<^verbatim>\<open>(a, b) => {
    if (sortType === 'name') return a.source.localeCompare(b.source);
    const dateA = new Date(a.created_at || 0).getTime();
    const dateB = new Date(b.created_at || 0).getTime();
    if (sortType === 'newest') return dateB - dateA;
    return dateA - dateB;
  }\<close>
  \<open>localeCompare\<close> depends on the locale and is a parameter. A difference with a NaN is
  NaN, \<open>None\<close> here.
\<close>

definition compareDocuments :: "(jsstring \<Rightarrow> jsstring \<Rightarrow> int) \<Rightarrow> (jsstring \<Rightarrow> int option)
    \<Rightarrow> sort_type \<Rightarrow> DocumentInfo \<Rightarrow> DocumentInfo \<Rightarrow> int option" where
  "compareDocuments localeCompare dateTime st a b =
     (if st = Name then Some (localeCompare (source a) (source b))
      else
        (case (getTime dateTime a, getTime dateTime b) of
           (Some dateA, Some dateB) \<Rightarrow> Some (if st = Newest then dateB - dateA else dateA - dateB)
         | _ \<Rightarrow> None))"

text \<open>
  \<open>Array.prototype.sort\<close> with a comparator. The standard asks for a stable sort and
  reads a NaN result as 0; with a comparator that is not consistent (a NaN date) the
  order is the engine's, may differ from the one computed here, and is always a
  rearrangement of the elements. The model is the stable insertion sort: an element
  moves behind the later elements it compares greater than.
\<close>

definition comes_after :: "('a \<Rightarrow> 'a \<Rightarrow> int option) \<Rightarrow> 'a \<Rightarrow> 'a \<Rightarrow> bool" where
  "comes_after cmp x y = (case cmp x y of None \<Rightarrow> False | Some v \<Rightarrow> 0 < v)"

fun insert_sorted :: "('a \<Rightarrow> 'a \<Rightarrow> int option) \<Rightarrow> 'a \<Rightarrow> 'a list \<Rightarrow> 'a list" where
  "insert_sorted cmp x [] = [x]"
| "insert_sorted cmp x (y # ys) =
     (if comes_after cmp x y then y # insert_sorted cmp x ys else x # y # ys)"

definition js_sort :: "('a \<Rightarrow> 'a \<Rightarrow> int option) \<Rightarrow> 'a list \<Rightarrow> 'a list" where
  "js_sort cmp xs = foldr (insert_sorted cmp) xs []"

definition sortedDocuments :: "(jsstring \<Rightarrow> jsstring \<Rightarrow> int) \<Rightarrow> (jsstring \<Rightarrow> int option)
    \<Rightarrow> sort_type \<Rightarrow> DocumentInfo list \<Rightarrow> DocumentInfo list" where
  "sortedDocuments localeCompare dateTime st docs =
     js_sort (compareDocuments localeCompare dateTime st) docs"

subsection \<open>Pagination\<close>

definition pageSize :: int where
  "pageSize = 9"

text \<open>
  \<open>Math.ceil(sortedDocuments.length / pageSize)\<close>. The quotient of an array length by 9
  is computed exactly enough for \<open>Math.ceil\<close> to give the ceiling of the exact quotient,
  which is \<open>- (- n div 9)\<close> on integers.
\<close>

definition totalPages :: "'a list \<Rightarrow> int" where
  "totalPages docs = - (- int (length docs) div pageSize)"

text \<open>
  \<open>Array.prototype.slice(start, end)\<close> on integers: a negative index counts from the
  end, and both indices are clamped to the array.
\<close>

definition js_slice :: "'a list \<Rightarrow> int \<Rightarrow> int \<Rightarrow> 'a list" where
  "js_slice xs start fin =
     (let n = int (length xs);
          k = (if start < 0 then max (n + start) 0 else min start n);
          final = (if fin < 0 then max (n + fin) 0 else min fin n)
      in take (nat (final - k)) (drop (nat k) xs))"

text \<open>\<^verbatim>\<open>sortedDocuments.slice((page - 1) * pageSize, page * pageSize)\<close>\<close>

definition paginatedDocuments :: "'a list \<Rightarrow> int \<Rightarrow> 'a list" where
  "paginatedDocuments docs p = js_slice docs ((p - 1) * pageSize) (p * pageSize)"

subsection \<open>Requests and their outcomes\<close>

text \<open>
  What a handler asks of the outside, in order: the requests of \<open>lib/api\<close> and the
  optional \<open>onDocumentsChange\<close> callback.
\<close>

record upload_file =
  name :: jsstring

datatype effect =
    UploadDocument upload_file
  | IngestUrls "jsstring list"
  | GetDocumentList
  | OnDocumentsChange

text \<open>
  \<open>uploadDocument\<close> and \<open>ingestUrls\<close> return \<open>response.json()\<close> without looking at
  \<open>response.ok\<close>: the promise resolves with whatever JSON the server sent, or rejects
  with an \<open>Error\<close> carrying a message (\<open>Some\<close>) or with another value (\<open>None\<close>).
\<close>

datatype ingest_outcome = Resolved jsvalue | Rejected "jsstring option"

record DocumentListResponse =
  list_documents :: "DocumentInfo list"
  total_count :: int
  total_chunks :: int

text \<open>\<open>getDocumentList\<close> resolves with the list or throws.\<close>

datatype list_outcome = Listed DocumentListResponse | ListFailed

text \<open>
  \<^verbatim>\<open>const loadDocuments = async () => {
    setIsLoading(true); setError(null);
    try {
      const response = await getDocumentList();
      setDocuments(response.documents);
      setTotalCount(response.total_count);
      setTotalChunks(response.total_chunks);
    } catch (err) { setError("..."); }
    finally { setIsLoading(false); }
  }\<close>
\<close>

definition loadDocuments :: "list_outcome \<Rightarrow> manager_state \<Rightarrow> manager_state" where
  "loadDocuments r st =
     (let st1 = st\<lparr>isLoading := True, error := None\<rparr> in
      case r of
        Listed resp \<Rightarrow>
          st1\<lparr>documents := list_documents resp, totalCount := total_count resp,
              totalChunks := total_chunks resp, isLoading := False\<rparr>
      | ListFailed \<Rightarrow> st1\<lparr>error := Some MsgLoadFailed, isLoading := False\<rparr>)"

definition rejection_message :: "jsstring option \<Rightarrow> ui_message \<Rightarrow> ui_message" where
  "rejection_message m fallback = (case m of None \<Rightarrow> fallback | Some t \<Rightarrow> Message t)"

text \<open>
  \<open>setError(x.status)\<close>: the state becomes the value of the field. The state \<open>null\<close> is
  \<open>None\<close>, whether it comes from \<open>setError(null)\<close> or from a status that is \<open>null\<close>.
\<close>

definition status_error :: "jsvalue \<Rightarrow> ui_message option" where
  "status_error v = (if v = JNull then None else Some (StatusValue v))"

text \<open>
  \<^verbatim>\<open>{error && (<div ...>{error}</div>)}\<close>: the error banner is rendered when the error
  state is truthy. The literals of the source and the messages of the engine are not
  empty.
\<close>

fun message_truthy :: "ui_message \<Rightarrow> bool" where
  "message_truthy (StatusValue v) = truthy v"
| "message_truthy (Message m) = (m \<noteq> [])"
| "message_truthy _ = True"

definition error_shown :: "manager_state \<Rightarrow> bool" where
  "error_shown st = (case error st of None \<Rightarrow> False | Some m \<Rightarrow> message_truthy m)"

subsection \<open>handleFileSelect\<close>

text \<open>
  \<^verbatim>\<open>const handleFileSelect = async (file: File) => {
    if (!file) return;
    setIsUploading(true); setError(null); setSuccessMsg(null);
    try {
      const result = await uploadDocument(file);
      if (result.status === "ready") {
        setSuccessMsg(`... "${file.name}" ...`);
        await loadDocuments();
        onDocumentsChange?.();
      } else { setError(result.status); }
    } catch (err) { setError(err instanceof Error ? err.message : "..."); }
    finally { setIsUploading(false); }
  }\<close>
  The result is the state after the handler and the requests it made.
\<close>

definition handleFileSelect :: "upload_file option \<Rightarrow> ingest_outcome \<Rightarrow> list_outcome \<Rightarrow> manager_state
    \<Rightarrow> manager_state \<times> effect list" where
  "handleFileSelect f upload listing st =
     (case f of
        None \<Rightarrow> (st, [])
      | Some fl \<Rightarrow>
          (let st1 = st\<lparr>isUploading := True, error := None, successMsg := None\<rparr> in
           case upload of
             Rejected m \<Rightarrow>
               (st1\<lparr>error := Some (rejection_message m MsgUploadFailed), isUploading := False\<rparr>,
                [UploadDocument fl])
           | Resolved result \<Rightarrow>
               (case get_prop result (lit ''status'') of
                  None \<Rightarrow>
                    (st1\<lparr>error := Some EngineTypeError, isUploading := False\<rparr>, [UploadDocument fl])
                | Some status \<Rightarrow>
                    if status = JStr (lit ''ready'') then
                      ((loadDocuments listing (st1\<lparr>successMsg := Some (MsgUploaded (name fl))\<rparr>))
                         \<lparr>isUploading := False\<rparr>,
                       [UploadDocument fl, GetDocumentList, OnDocumentsChange])
                    else
                      (st1\<lparr>error := status_error status, isUploading := False\<rparr>,
                       [UploadDocument fl]))))"

subsection \<open>handleAddUrl\<close>

text \<open>
  \<open>v[0]\<close> for a value that is neither \<open>null\<close> nor \<open>undefined\<close>: the first element of
  an array, the first code unit of a string, the member \<open>0\<close> of an object.
\<close>

fun first_index :: "jsvalue \<Rightarrow> jsvalue" where
  "first_index (JArr (x # xs)) = x"
| "first_index (JStr (c # cs)) = JStr [c]"
| "first_index (JObj ms) = (case map_of (rev ms) (lit ''0'') of None \<Rightarrow> JUndefined | Some v \<Rightarrow> v)"
| "first_index v = JUndefined"

text \<open>\<open>result.documents?.[0]\<close>; \<open>None\<close> is the TypeError of \<open>result.documents\<close>.\<close>

definition firstDoc :: "jsvalue \<Rightarrow> jsvalue option" where
  "firstDoc result =
     (case get_prop result (lit ''documents'') of
        None \<Rightarrow> None
      | Some docs \<Rightarrow> Some (if docs = JNull \<or> docs = JUndefined then JUndefined else first_index docs))"

text \<open>
  \<open>doc?.k\<close>, which is also \<open>doc.k\<close> for a truthy \<open>doc\<close>: \<open>undefined\<close> when \<open>doc\<close> is \<open>null\<close> or
  \<open>undefined\<close>.
\<close>

definition optional_prop :: "jsvalue \<Rightarrow> jsstring \<Rightarrow> jsvalue" where
  "optional_prop doc k = (case get_prop doc k of None \<Rightarrow> JUndefined | Some v \<Rightarrow> v)"

text \<open>
  \<open>status?.startsWith("failed")\<close>: not evaluated for \<open>null\<close> and \<open>undefined\<close>; a value
  that is not a string has no \<open>startsWith\<close>, and calling it is a TypeError (\<open>None\<close>).
\<close>

fun status_failed :: "jsvalue \<Rightarrow> bool option" where
  "status_failed JUndefined = Some False"
| "status_failed JNull = Some False"
| "status_failed (JStr s) = Some (startsWith s (lit ''failed''))"
| "status_failed v = None"

text \<open>
  \<^verbatim>\<open>const handleAddUrl = async () => {
    const url = urlInput.trim();
    if (!url) return;
    if (!url.startsWith("http://") && !url.startsWith("https://")) {
      setError("..."); return;
    }
    setIsAddingUrl(true); setError(null); setSuccessMsg(null);
    try {
      const result = await ingestUrls([url]);
      const firstDoc = result.documents?.[0];
      if (firstDoc && firstDoc.status === "ready") {
        setSuccessMsg(`URL "${url}" ... ${firstDoc.chunk_count || 0} ...`);
        setUrlInput("");
        await loadDocuments();
        onDocumentsChange?.();
        setAddDialogOpen(false);
      } else if (firstDoc?.status?.startsWith("failed")) { setError(firstDoc.status); }
      else { setError("..."); }
    } catch (err) { setError(err instanceof Error ? err.message : "..."); }
    finally { setIsAddingUrl(false); }
  }\<close>
\<close>

definition handleAddUrl :: "ingest_outcome \<Rightarrow> list_outcome \<Rightarrow> manager_state
    \<Rightarrow> manager_state \<times> effect list" where
  "handleAddUrl ingest listing st =
     (let url = trim (urlInput st) in
      if url = [] then (st, [])
      else if \<not> startsWith url (lit ''http://'') \<and> \<not> startsWith url (lit ''https://'') then
        (st\<lparr>error := Some MsgInvalidUrl\<rparr>, [])
      else
        (let st1 = st\<lparr>isAddingUrl := True, error := None, successMsg := None\<rparr> in
         case ingest of
           Rejected m \<Rightarrow>
             (st1\<lparr>error := Some (rejection_message m MsgAddUrlFailed), isAddingUrl := False\<rparr>,
              [IngestUrls [url]])
         | Resolved result \<Rightarrow>
             (case firstDoc result of
                None \<Rightarrow> (st1\<lparr>error := Some EngineTypeError, isAddingUrl := False\<rparr>, [IngestUrls [url]])
              | Some doc \<Rightarrow>
                  if truthy doc \<and> optional_prop doc (lit ''status'') = JStr (lit ''ready'') then
                    ((loadDocuments listing
                        (st1\<lparr>successMsg := Some (MsgUrlAdded url
                                 (or_else (optional_prop doc (lit ''chunk_count'')) (JNum 0 0))),
                             urlInput := []\<rparr>))
                       \<lparr>addDialogOpen := False, isAddingUrl := False\<rparr>,
                     [IngestUrls [url], GetDocumentList, OnDocumentsChange])
                  else
                    (case status_failed (optional_prop doc (lit ''status'')) of
                       None \<Rightarrow>
                         (st1\<lparr>error := Some EngineTypeError, isAddingUrl := False\<rparr>,
                          [IngestUrls [url]])
                     | Some True \<Rightarrow>
                         (st1\<lparr>error := status_error (optional_prop doc (lit ''status'')),
                              isAddingUrl := False\<rparr>, [IngestUrls [url]])
                     | Some False \<Rightarrow>
                         (st1\<lparr>error := Some MsgAddUrlFailed, isAddingUrl := False\<rparr>,
                          [IngestUrls [url]])))))"

subsection \<open>Initial state and the conditions of the claims\<close>

text \<open>The state of the component when it is mounted.\<close>

definition initial_manager_state :: manager_state where
  "initial_manager_state =
     \<lparr> documents = [], isLoading = True, isUploading = False, isDeleting = None,
       deleteConfirmOpen = False, addDialogOpen = False, uploadMode = FileMode,
       docToDelete = None, error = None, successMsg = None, totalCount = 0, totalChunks = 0,
       urlInput = [], isAddingUrl = False, page = 1, sortType = Newest \<rparr>"

section \<open>SessionList: truncateTitle\<close>

text \<open>
  \<^verbatim>\<open>function truncateTitle(title: string, maxLength: number = 25): string {
    if (title.length <= maxLength) return title;
    return title.slice(0, maxLength) + "...";
  }\<close>
  The only call site is \<^verbatim>\<open>truncateTitle(session.title)\<close>, so \<open>maxLength\<close> is always the
  default; it is a natural number here, where \<open>slice(0, maxLength)\<close> is \<open>take\<close>.
\<close>

definition truncateTitle :: "jsstring \<Rightarrow> nat \<Rightarrow> jsstring" where
  "truncateTitle title maxLength =
     (if length title \<le> maxLength then title else take maxLength title @ lit ''...'')"

definition truncateTitle_default :: "jsstring \<Rightarrow> jsstring" where
  "truncateTitle_default title = truncateTitle title 25"

section \<open>Results\<close>

lemma length_lit [simp]: "length (lit s) = length s"
  by (simp add: lit_def)

text \<open>
  Claim C7. For every title, \<open>truncateTitle\<close> with the default length returns the
  title unchanged when it has at most 25 code units, and otherwise its first 25 code
  units followed by \<open>...\<close>; the result is a prefix of the title, possibly followed by
  the ellipsis, and never has more than 28 code units.
\<close>

theorem truncateTitle_spec:
  "(length t \<le> 25 \<longrightarrow> truncateTitle_default t = t)
   \<and> (25 < length t \<longrightarrow> truncateTitle_default t = take 25 t @ lit ''...'')
   \<and> (\<exists>p. prefix p t \<and> (truncateTitle_default t = p \<or> truncateTitle_default t = p @ lit ''...''))
   \<and> length (truncateTitle_default t) \<le> 28"
proof -
  have pre: "\<exists>p. prefix p t \<and> (truncateTitle_default t = p \<or> truncateTitle_default t = p @ lit ''...'')"
  proof (cases "length t \<le> 25")
    case True
    then have "prefix t t \<and> truncateTitle_default t = t"
      by (simp add: truncateTitle_default_def truncateTitle_def)
    then show ?thesis by blast
  next
    case False
    then have "prefix (take 25 t) t \<and> truncateTitle_default t = take 25 t @ lit ''...''"
      by (simp add: truncateTitle_default_def truncateTitle_def take_is_prefix)
    then show ?thesis by blast
  qed
  have len: "length (truncateTitle_default t) \<le> 28"
    by (simp add: truncateTitle_default_def truncateTitle_def)
  show ?thesis
    using pre len by (simp add: truncateTitle_default_def truncateTitle_def)
qed

theorem truncateTitle_spec_witness:
  "truncateTitle_default (lit ''Weather'') = lit ''Weather''
   \<and> truncateTitle_default (lit ''What is the weather tomorrow in Paris?'')
       = lit ''What is the weather tomor...''"
proof -
  have short: "length (lit ''Weather'') \<le> 25" by simp
  have long: "25 < length (lit ''What is the weather tomorrow in Paris?'')" by simp
  from short truncateTitle_spec [of "lit ''Weather''"]
  have a: "truncateTitle_default (lit ''Weather'') = lit ''Weather''" by blast
  from long truncateTitle_spec [of "lit ''What is the weather tomorrow in Paris?''"]
  have "truncateTitle_default (lit ''What is the weather tomorrow in Paris?'')
          = take 25 (lit ''What is the weather tomorrow in Paris?'') @ lit ''...''" by blast
  then have b: "truncateTitle_default (lit ''What is the weather tomorrow in Paris?'')
       = lit ''What is the weather tomor...''" by (simp add: lit_def)
  from a b show ?thesis by simp
qed

section \<open>streamMessage: the read loop depends on the bytes, not on the chunks\<close>

lemma split_nl_nonempty: "split_nl s \<noteq> []"
  by (induction s) (auto split: list.splits)

lemma split_nl_append:
  "split_nl (a @ b) = butlast (split_nl a) @ split_nl (last (split_nl a) @ b)"
proof (induction a)
  case Nil
  then show ?case by simp
next
  case (Cons c a)
  show ?case
  proof (cases "c = 0x0A")
    case True
    with Cons show ?thesis by (simp add: split_nl_nonempty)
  next
    case False
    obtain l ls where sp: "split_nl a = l # ls"
      using split_nl_nonempty [of a] by (cases "split_nl a") auto
    show ?thesis
    proof (cases ls)
      case Nil
      with False sp Cons show ?thesis by simp
    next
      case (Cons l' ls')
      with False sp Cons.IH show ?thesis by simp
    qed
  qed
qed

lemma for_lines_append:
  "for_lines st (xs @ ys) =
     (case for_lines st xs of
        (os, True, st') \<Rightarrow> (os, True, st')
      | (os, False, st') \<Rightarrow> (case for_lines st' ys of (os', r, st'') \<Rightarrow> (os @ os', r, st'')))"
  by (induction xs arbitrary: st) (auto split: prod.splits bool.splits)

lemma split_nl_no_lf: "0x0A \<notin> set s \<Longrightarrow> split_nl s = [s]"
  by (induction s) auto

lemma last_split_nl_no_lf: "0x0A \<notin> set (last (split_nl s))"
proof (induction s)
  case Nil
  then show ?case by simp
next
  case (Cons c s)
  then show ?case
    using split_nl_nonempty [of s] by (auto split: list.splits)
qed

lemma decode_append:
  "decode d (a @ b) =
     (case decode d a of (d1, out1) \<Rightarrow> (case decode d1 b of (d2, out2) \<Rightarrow> (d2, out1 @ out2)))"
  by (induction a arbitrary: d) (auto split: prod.splits)

lemma read_loop_concat:
  "0x0A \<notin> set buf \<Longrightarrow>
   drop_buffer (read_loop d buf st chunks)
     = for_lines st (butlast (split_nl (buf @ snd (decode d (concat chunks)))))"
proof (induction chunks arbitrary: d buf st)
  case Nil
  then show ?case by (simp add: drop_buffer_def split_nl_no_lf)
next
  case (Cons c cs)
  obtain d1 t1 where dc: "decode d c = (d1, t1)" by (cases "decode d c") auto
  obtain d2 t2 where dcs: "decode d1 (concat cs) = (d2, t2)" by (cases "decode d1 (concat cs)") auto
  have whole: "snd (decode d (concat (c # cs))) = t1 @ t2"
    using dc dcs by (simp add: decode_append)
  let ?p = "split_nl (buf @ t1)"
  have sp: "split_nl (buf @ t1 @ t2) = butlast ?p @ split_nl (last ?p @ t2)"
    using split_nl_append [of "buf @ t1" t2] by simp
  have bl: "butlast (split_nl (buf @ t1 @ t2)) = butlast ?p @ butlast (split_nl (last ?p @ t2))"
    unfolding sp by (simp add: butlast_append split_nl_nonempty)
  have ih: "drop_buffer (read_loop d1 (last ?p) st' cs) = for_lines st' (butlast (split_nl (last ?p @ t2)))" for st'
    using Cons.IH [of "last ?p" d1 st'] last_split_nl_no_lf [of "buf @ t1"] dcs by simp
  obtain os r st1 where fl: "for_lines st (butlast ?p) = (os, r, st1)"
    by (cases "for_lines st (butlast ?p)") auto
  show ?case
  proof (cases r)
    case True
    with fl dc show ?thesis
      unfolding whole bl for_lines_append by (simp add: drop_buffer_def)
  next
    case False
    obtain os' r' b' st2 where rl: "read_loop d1 (last ?p) st1 cs = (os', r', b', st2)"
      by (cases "read_loop d1 (last ?p) st1 cs") auto
    from ih [of st1] rl
    have "for_lines st1 (butlast (split_nl (last ?p @ t2))) = (os', r', st2)"
      by (simp add: drop_buffer_def)
    with fl rl dc False show ?thesis
      unfolding whole bl for_lines_append by (simp add: drop_buffer_def)
  qed
qed

lemma observed_read_loop:
  "fst (read_loop d [] st chunks)
     = fst (for_lines st (butlast (split_nl (snd (decode d (concat chunks))))))"
proof -
  have "fst (read_loop d [] st chunks) = fst (drop_buffer (read_loop d [] st chunks))"
    by (cases "read_loop d [] st chunks") (simp add: drop_buffer_def)
  then show ?thesis
    using read_loop_concat [of "[]" d st chunks] by simp
qed

lemma try_body_event_only:
  assumes "currentEvent a = currentEvent b"
  shows "(case try_body a d of Normal v \<Rightarrow> Normal JUndefined | r \<Rightarrow> r)
       = (case try_body b d of Normal v \<Rightarrow> Normal JUndefined | r \<Rightarrow> r)"
  using assms by (simp add: try_body_def split: option.splits)

lemma process_line_event_only:
  assumes "currentEvent a = currentEvent b"
  shows "same_obs (process_line a l) (process_line b l)"
proof -
  from try_body_event_only [OF assms, of "drop 6 l"]
  have "same_obs (case try_body a (drop 6 l) of
           Normal v \<Rightarrow> ([], False, a\<lparr>sessionIdRef := v\<rparr>)
         | Yields v \<Rightarrow> ([Yield v], False, a)
         | Returns \<Rightarrow> ([], True, a)
         | Throws e \<Rightarrow> ([ConsoleError (drop 6 l) e], False, a))
        (case try_body b (drop 6 l) of
           Normal v \<Rightarrow> ([], False, b\<lparr>sessionIdRef := v\<rparr>)
         | Yields v \<Rightarrow> ([Yield v], False, b)
         | Returns \<Rightarrow> ([], True, b)
         | Throws e \<Rightarrow> ([ConsoleError (drop 6 l) e], False, b))"
    using assms
    by (cases "try_body a (drop 6 l)"; cases "try_body b (drop 6 l)") (simp_all add: same_obs_def)
  then show ?thesis
    using assms by (simp add: process_line_def same_obs_def)
qed

lemma for_lines_event_only:
  "currentEvent a = currentEvent b \<Longrightarrow> same_obs (for_lines a ls) (for_lines b ls)"
proof (induction ls arbitrary: a b)
  case Nil
  then show ?case by (simp add: same_obs_def)
next
  case (Cons l ls)
  obtain os r a' where pa: "process_line a l = (os, r, a')"
    by (cases "process_line a l") auto
  obtain os2 r2 b' where pb: "process_line b l = (os2, r2, b')"
    by (cases "process_line b l") auto
  from process_line_event_only [OF Cons.prems, of l] pa pb
  have eq: "os = os2" "r = r2" "currentEvent a' = currentEvent b'"
    by (simp_all add: same_obs_def)
  show ?case
  proof (cases r)
    case True
    with pa pb eq show ?thesis by (simp add: same_obs_def)
  next
    case False
    from Cons.IH [OF eq(3)] pa pb eq False show ?thesis
      by (auto simp: same_obs_def split: prod.splits)
  qed
qed

text \<open>
  Claim C3. The run of \<open>streamMessage\<close> over a response body is determined by the
  concatenation of its byte chunks: two bodies with the same bytes, cut into chunks at
  different places (inside a line or inside a character too), give the same
  observations and the same completion; and the sequence of yielded values does not
  depend on the arguments of the call either.
\<close>

theorem streamMessage_chunking:
  assumes "concat chunks1 = concat chunks2"
  shows "streamMessage msg sid img fmt (Body chunks1) = streamMessage msg sid img fmt (Body chunks2)
       \<and> yielded (observed (streamMessage msg sid img fmt (Body chunks1)))
         = yielded (observed (streamMessage msg' sid' img' fmt' (Body chunks2)))"
proof -
  let ?s = "\<lambda>sid. \<lparr> currentEvent = [], sessionIdRef = (case sid of None \<Rightarrow> JUndefined | Some i \<Rightarrow> JStr i) \<rparr>"
  let ?ls = "butlast (split_nl (snd (decode new_TextDecoder (concat chunks2))))"
  have a: "fst (read_loop new_TextDecoder [] (?s sid) chunks1) = fst (read_loop new_TextDecoder [] (?s sid) chunks2)"
    by (simp add: observed_read_loop assms)
  have "same_obs (for_lines (?s sid) ?ls) (for_lines (?s sid') ?ls)"
    by (rule for_lines_event_only) simp
  then have b: "fst (read_loop new_TextDecoder [] (?s sid) chunks1) = fst (read_loop new_TextDecoder [] (?s sid') chunks2)"
    by (simp add: observed_read_loop assms same_obs_def)
  from a b show ?thesis
    by (simp add: streamMessage_def Let_def)
qed

theorem streamMessage_chunking_witness:
  \<open>streamMessage (lit ''hi'') None None None
      (Body [ascii ''event: token'' @ [0x0A] @ ascii ''data: {"token": "caf'' @ [0xC3],
             [0xA9] @ ascii ''"}'' @ [0x0A, 0x0A] @ ascii ''event: done'' @ [0x0A] @ ascii ''data: {}'' @ [0x0A]])
   = streamMessage (lit ''hi'') None None None
      (Body [ascii ''event: to'', ascii ''ken'' @ [0x0A] @ ascii ''data: {"token": "caf'' @ [0xC3, 0xA9]
               @ ascii ''"}'' @ [0x0A, 0x0A] @ ascii ''event: done'', [0x0A] @ ascii ''data: {}'' @ [0x0A]])\<close>
proof -
  have h: \<open>concat [ascii ''event: token'' @ [0x0A] @ ascii ''data: {"token": "caf'' @ [0xC3],
             [0xA9] @ ascii ''"}'' @ [0x0A, 0x0A] @ ascii ''event: done'' @ [0x0A] @ ascii ''data: {}'' @ [0x0A]]
        = concat [ascii ''event: to'', ascii ''ken'' @ [0x0A] @ ascii ''data: {"token": "caf'' @ [0xC3, 0xA9]
               @ ascii ''"}'' @ [0x0A, 0x0A] @ ascii ''event: done'', [0x0A] @ ascii ''data: {}'' @ [0x0A]]\<close>
    by (simp add: ascii_def)
  from streamMessage_chunking [OF h] show ?thesis by blast
qed

section \<open>JSON.parse: a carriage return after the text\<close>

lemma takeWhile_snoc_stop: "\<not> P y \<Longrightarrow> takeWhile P (xs @ [y]) = takeWhile P xs"
  by (induction xs) simp_all

lemma dropWhile_snoc_stop: "\<not> P y \<Longrightarrow> dropWhile P (xs @ [y]) = dropWhile P xs @ [y]"
  by (induction xs) simp_all

lemma cr_not_digit: "\<not> is_digit 0x0D"
  by (simp add: is_digit_def)

lemma hex_val_cr: "hex_val 0x0D = None"
  by (simp add: hex_val_def)

lemma unescape_cr: "unescape 0x0D = None"
  by (simp add: unescape_def)

lemma scan_string_cr:
  "scan_string (s @ [0x0D]) =
     (case scan_string s of None \<Rightarrow> None | Some (str, rest) \<Rightarrow> Some (str, rest @ [0x0D]))"
proof (induction s rule: scan_string.induct)
  case 1
  show ?case by (simp add: unescape_cr)
next
  case (2 c s)
  show ?case
  proof (cases "c = 0x22")
    case True
    then show ?thesis by simp
  next
    case nq: False
    show ?thesis
    proof (cases "c = 0x5C")
      case bs: True
      show ?thesis
      proof (cases s)
        case Nil
        with bs show ?thesis by (simp add: unescape_cr)
      next
        case (Cons e s1)
        show ?thesis
        proof (cases "e = 0x75")
          case u: True
          show ?thesis
          proof (cases "\<exists>h1 h2 h3 h4 s2. s1 = h1 # h2 # h3 # h4 # s2")
            case True
            then obtain h1 h2 h3 h4 s2 where s1: "s1 = h1 # h2 # h3 # h4 # s2" by blast
            show ?thesis
            proof (cases "hex4 h1 h2 h3 h4")
              case None
              with bs u Cons s1 show ?thesis by simp
            next
              case (Some w)
              with "2.IH"(1) [OF nq bs Cons u s1 refl refl refl Some] bs u Cons s1 show ?thesis
                by (simp add: cons_str_def split: option.splits prod.splits)
            qed
          next
            case False
            then have short: "s1 = [] \<or> (\<exists>a. s1 = [a]) \<or> (\<exists>a b. s1 = [a, b]) \<or> (\<exists>a b d. s1 = [a, b, d])"
              by (cases s1; simp; (rename_tac a l, case_tac l; simp; (rename_tac b m, case_tac m; simp; (rename_tac c n, case_tac n; simp))))
            have "scan_string (c # s) = None"
              using bs u Cons False by (auto split: list.splits)
            moreover have "scan_string ((c # s) @ [0x0D]) = None"
              using bs u Cons short
              by (auto simp: hex4_def hex_val_cr split: option.splits)
            ultimately show ?thesis by simp
          qed
        next
          case nu: False
          show ?thesis
          proof (cases "unescape e")
            case None
            with bs nu Cons show ?thesis by simp
          next
            case (Some w)
            with "2.IH"(2) [OF nq bs Cons nu Some] bs nu Cons show ?thesis
              by (simp add: cons_str_def split: option.splits prod.splits)
          qed
        qed
      qed
    next
      case nbs: False
      show ?thesis
      proof (cases "c < 0x20")
        case True
        with nq nbs show ?thesis by simp
      next
        case False
        with "2.IH"(3) [OF nq nbs False] nq nbs show ?thesis
          by (simp add: cons_str_def split: option.splits prod.splits)
      qed
    qed
  qed
qed

lemma scan_int_cr:
  "scan_int (s @ [0x0D]) =
     (case scan_int s of None \<Rightarrow> None | Some (ip, rest) \<Rightarrow> Some (ip, rest @ [0x0D]))"
  by (cases s) (simp_all add: scan_int_def cr_not_digit takeWhile_snoc_stop dropWhile_snoc_stop)

lemma scan_frac_cr:
  "scan_frac (s @ [0x0D]) =
     (case scan_frac s of None \<Rightarrow> None | Some (fp, rest) \<Rightarrow> Some (fp, rest @ [0x0D]))"
  by (cases s) (simp_all add: scan_frac_def cr_not_digit takeWhile_snoc_stop dropWhile_snoc_stop)

lemma scan_exp_digits_cr:
  "scan_exp_digits neg (s @ [0x0D]) =
     (case scan_exp_digits neg s of None \<Rightarrow> None | Some (ex, rest) \<Rightarrow> Some (ex, rest @ [0x0D]))"
  by (simp add: scan_exp_digits_def cr_not_digit takeWhile_snoc_stop dropWhile_snoc_stop)

lemma scan_exp_digits_only_cr: "scan_exp_digits neg [0x0D] = None"
  by (simp add: scan_exp_digits_def cr_not_digit)

lemma scan_exp_digits_Nil: "scan_exp_digits neg [] = None"
  by (simp add: scan_exp_digits_def)

lemma scan_exp_cr:
  "scan_exp (s @ [0x0D]) =
     (case scan_exp s of None \<Rightarrow> None | Some (ex, rest) \<Rightarrow> Some (ex, rest @ [0x0D]))"
proof (cases s)
  case Nil
  then show ?thesis by (simp add: scan_exp_def)
next
  case (Cons c r)
  show ?thesis
  proof (cases r)
    case Nil
    with Cons show ?thesis
      by (simp add: scan_exp_def scan_exp_digits_only_cr)
  next
    case (Cons g r1)
    with \<open>s = c # r\<close> show ?thesis
      using scan_exp_digits_cr [of False r1] scan_exp_digits_cr [of True r1]
        scan_exp_digits_cr [of False "g # r1"]
      by (simp add: scan_exp_def)
  qed
qed

lemma scan_unsigned_cr:
  "scan_unsigned neg (s @ [0x0D]) =
     (case scan_unsigned neg s of None \<Rightarrow> None | Some (v, rest) \<Rightarrow> Some (v, rest @ [0x0D]))"
  by (simp add: scan_unsigned_def scan_int_cr scan_frac_cr scan_exp_cr split: option.splits prod.splits)

lemma scan_unsigned_only_cr: "scan_unsigned neg [0x0D] = None"
  by (simp add: scan_unsigned_def scan_int_def cr_not_digit)

lemma scan_unsigned_Nil: "scan_unsigned neg [] = None"
  by (simp add: scan_unsigned_def scan_int_def)

lemma scan_number_cr:
  "scan_number (s @ [0x0D]) =
     (case scan_number s of None \<Rightarrow> None | Some (v, rest) \<Rightarrow> Some (v, rest @ [0x0D]))"
proof (cases s)
  case Nil
  then show ?thesis by (simp add: scan_number_def scan_unsigned_only_cr)
next
  case (Cons c r)
  with scan_unsigned_cr [of True r] scan_unsigned_cr [of False "c # r"] show ?thesis
    by (simp add: scan_number_def)
qed

lemma startsWith_snoc_cr:
  assumes "0x0D \<notin> set p"
  shows "startsWith (u @ [0x0D]) p = startsWith u p"
proof -
  have "p \<noteq> u @ [0x0D]" using assms by auto
  then show ?thesis by (simp add: startsWith_def prefix_snoc)
qed

lemma startsWith_length: "startsWith u p \<Longrightarrow> length p \<le> length u"
  by (simp add: startsWith_def prefix_length_le)

lemma json_lex_cr: "json_lex (s @ [0x0D]) = json_lex s"
proof (induction s rule: json_lex.induct)
  case 1
  show ?case by (simp add: is_json_ws_def)
next
  case (2 c s)
  have kw: "startsWith ((c # s) @ [0x0D]) (lit k) = startsWith (c # s) (lit k)"
    if "k = ''true'' \<or> k = ''false'' \<or> k = ''null''" for k
    using that by (intro startsWith_snoc_cr) (auto simp: lit_def)
  show ?case
  proof (cases "is_json_ws c")
    case True
    with "2.IH"(1) show ?thesis by simp
  next
    case ws: False
    show ?thesis
    proof (cases "c = 0x7B \<or> c = 0x7D \<or> c = 0x5B \<or> c = 0x5D \<or> c = 0x3A \<or> c = 0x2C")
      case True
      then consider "c = 0x7B" | "c = 0x7D" | "c = 0x5B" | "c = 0x5D" | "c = 0x3A" | "c = 0x2C"
        by blast
      then show ?thesis
      proof cases
        case 1
        with ws "2.IH"(2) show ?thesis by simp
      next
        case 2
        with ws "2.IH"(3) show ?thesis by simp
      next
        case 3
        with ws "2.IH"(4) show ?thesis by simp
      next
        case 4
        with ws "2.IH"(5) show ?thesis by simp
      next
        case 5
        with ws "2.IH"(6) show ?thesis by simp
      next
        case 6
        with ws "2.IH"(7) show ?thesis by simp
      qed
    next
      case punct: False
      then have p: "c \<noteq> 0x7B" "c \<noteq> 0x7D" "c \<noteq> 0x5B" "c \<noteq> 0x5D" "c \<noteq> 0x3A" "c \<noteq> 0x2C"
        by simp_all
      show ?thesis
      proof (cases "c = 0x22")
        case True
        show ?thesis
        proof (cases "scan_string s")
          case None
          with True ws show ?thesis by (simp add: scan_string_cr)
        next
          case (Some r)
          obtain str rest where r: "r = (str, rest)" by (cases r)
          from Some r have sc: "scan_string s = Some (str, rest)" by simp
          have "json_lex (rest @ [0x0D]) = json_lex rest"
            by (rule "2.IH"(8) [OF ws p True sc refl])
          with True ws sc show ?thesis by (simp add: scan_string_cr)
        qed
      next
        case nq: False
        show ?thesis
        proof (cases "c = 0x2D \<or> is_digit c")
          case True
          show ?thesis
          proof (cases "scan_number (c # s)")
            case None
            from None scan_number_cr [of "c # s"]
            have "scan_number (c # s @ [0x0D]) = None" by simp
            with True ws p nq None show ?thesis by simp
          next
            case (Some r)
            obtain v rest where r: "r = (v, rest)" by (cases r)
            from Some r have sc: "scan_number (c # s) = Some (v, rest)" by simp
            have ih: "json_lex (rest @ [0x0D]) = json_lex rest"
              by (rule "2.IH"(9) [OF ws p nq True sc refl])
            from sc scan_number_cr [of "c # s"]
            have "scan_number (c # s @ [0x0D]) = Some (v, rest @ [0x0D])" by simp
            with True ws p nq sc ih show ?thesis by simp
          qed
        next
          case nn: False
          have d3: "json_lex (drop 3 s @ [0x0D]) = json_lex (drop 3 s)"
            if "startsWith (c # s) (lit ''true'')"
            by (rule "2.IH"(10) [OF ws p nq nn that])
          have d4: "json_lex (drop 4 s @ [0x0D]) = json_lex (drop 4 s)"
            if "\<not> startsWith (c # s) (lit ''true'')" "startsWith (c # s) (lit ''false'')"
            by (rule "2.IH"(11) [OF ws p nq nn that])
          have d3n: "json_lex (drop 3 s @ [0x0D]) = json_lex (drop 3 s)"
            if "\<not> startsWith (c # s) (lit ''true'')" "\<not> startsWith (c # s) (lit ''false'')"
               "startsWith (c # s) (lit ''null'')"
            by (rule "2.IH"(12) [OF ws p nq nn that])
          have len: "length k \<le> Suc (length s)" if "startsWith (c # s) (lit k)" for k
            using startsWith_length [OF that] by (simp add: lit_def)
          show ?thesis
          proof (cases "startsWith (c # s) (lit ''true'')")
            case True
            from len [OF True] have "drop 3 (s @ [0x0D]) = drop 3 s @ [0x0D]" by simp
            with True ws p nq nn kw [of "''true''"] d3 show ?thesis by simp
          next
            case nt: False
            show ?thesis
            proof (cases "startsWith (c # s) (lit ''false'')")
              case True
              from len [OF True] have "drop 4 (s @ [0x0D]) = drop 4 s @ [0x0D]" by simp
              with True nt ws p nq nn kw [of "''true''"] kw [of "''false''"] d4 show ?thesis by simp
            next
              case nf: False
              show ?thesis
              proof (cases "startsWith (c # s) (lit ''null'')")
                case True
                from len [OF True] have "drop 3 (s @ [0x0D]) = drop 3 s @ [0x0D]" by simp
                with True nt nf ws p nq nn kw [of "''true''"] kw [of "''false''"] kw [of "''null''"] d3n
                show ?thesis by simp
              next
                case False
                with nt nf ws p nq nn kw [of "''true''"] kw [of "''false''"] kw [of "''null''"]
                show ?thesis by simp
              qed
            qed
          qed
        qed
      qed
    qed
  qed
qed

lemma JSON_parse_cr: "JSON_parse (s @ [0x0D]) = JSON_parse s"
  by (simp add: JSON_parse_def json_lex_cr)

section \<open>streamMessage: the yielded tokens\<close>

lemma split_nl_line: "0x0A \<notin> set l \<Longrightarrow> split_nl (l @ 0x0A # rest) = l # split_nl rest"
  using split_nl_nonempty [of rest]
  by (induction l) (auto split: list.splits)

lemma kind_name_no_lf: "0x0A \<notin> set (kind_name k)"
  by (cases k) (simp_all add: lit_def)

lemma cr_no_lf: "0x0A \<notin> set (cr e)"
  by (cases e) simp_all

lemma split_nl_wire:
  assumes "0x0A \<notin> set (snd ev)"
  shows "split_nl (wire e ev @ rest) = map (\<lambda>l. l @ cr e) (event_lines ev) @ split_nl rest"
proof -
  have a: "0x0A \<notin> set ((lit ''event: '' @ kind_name (fst ev)) @ cr e)"
    using kind_name_no_lf [of "fst ev"] cr_no_lf [of e] by (simp add: lit_def)
  have b: "0x0A \<notin> set ((lit ''data: '' @ snd ev) @ cr e)"
    using assms cr_no_lf [of e] by (simp add: lit_def)
  have c: "0x0A \<notin> set ([] @ cr e)"
    using cr_no_lf [of e] by simp
  have "wire e ev @ rest = ((lit ''event: '' @ kind_name (fst ev)) @ cr e) @ 0x0A #
          (((lit ''data: '' @ snd ev) @ cr e) @ 0x0A # (([] @ cr e) @ 0x0A # rest))"
    by (simp add: wire_def event_lines_def)
  then show ?thesis
    using split_nl_line [OF a] split_nl_line [OF b] split_nl_line [OF c]
    by (simp add: event_lines_def)
qed

lemma split_nl_body:
  "\<forall>ev \<in> set evs. 0x0A \<notin> set (snd ev) \<Longrightarrow>
   split_nl (concat (map (wire e) evs)) = concat (map (\<lambda>ev. map (\<lambda>l. l @ cr e) (event_lines ev)) evs) @ [[]]"
  by (induction evs) (simp_all add: split_nl_wire)

lemma trim_Nil: "trim [] = []"
  by (simp add: trim_def)

lemma trim_cr: "trim (cr e) = []"
  by (cases e) (simp_all add: trim_def is_js_space_def)

lemma trim_not_space: "\<not> is_js_space c \<Longrightarrow> trim (c # s) \<noteq> []"
  by (simp add: trim_def dropWhile_eq_Nil_conv)

lemma trim_kind_name: "trim (kind_name k @ cr e) = kind_name k"
  by (cases k; cases e) (simp_all add: trim_def lit_def is_js_space_def)

lemma process_event_line:
  "process_line st (lit ''event: '' @ kind_name k @ cr e) = ([], False, st\<lparr>currentEvent := kind_name k\<rparr>)"
proof -
  have "trim (lit ''event: '' @ kind_name k @ cr e) \<noteq> []"
    using trim_not_space [of "0x65"] by (simp add: lit_def is_js_space_def)
  then show ?thesis
    by (simp add: process_line_def startsWith_def trim_kind_name)
qed

lemma try_body_cr: "try_body st (d @ cr e) = try_body st d"
  by (cases e) (simp_all add: try_body_def JSON_parse_cr)

lemma process_data_line:
  "process_line st (lit ''data: '' @ d @ cr e) =
     (case try_body st d of
        Normal v \<Rightarrow> ([], False, st\<lparr>sessionIdRef := v\<rparr>)
      | Yields v \<Rightarrow> ([Yield v], False, st)
      | Returns \<Rightarrow> ([], True, st)
      | Throws x \<Rightarrow> ([ConsoleError (d @ cr e) x], False, st))"
proof -
  have "trim (lit ''data: '' @ d @ cr e) \<noteq> []"
    using trim_not_space [of "0x64"] by (simp add: lit_def is_js_space_def)
  moreover have "\<not> startsWith (lit ''data: '' @ d @ cr e) (lit ''event: '')"
    by (simp add: startsWith_def lit_def)
  moreover have "startsWith (lit ''data: '' @ d @ cr e) (lit ''data: '')"
    by (simp add: startsWith_def)
  ultimately show ?thesis
    by (simp add: process_line_def try_body_cr cong: try_result.case_cong)
qed

lemma process_blank_line: "process_line st (cr e) = ([], False, st)"
  by (simp add: process_line_def trim_cr)

lemma yielded_append: "yielded (a @ b) = yielded a @ yielded b"
  by (induction a rule: yielded.induct) simp_all

lemma ys_event:
  "yields_of st (map (\<lambda>l. l @ cr e) (event_lines (k, d)) @ ls) =
     (case try_body (st\<lparr>currentEvent := kind_name k\<rparr>) d of
        Normal v \<Rightarrow> yields_of (st\<lparr>currentEvent := kind_name k, sessionIdRef := v\<rparr>) ls
      | Yields v \<Rightarrow> v # yields_of (st\<lparr>currentEvent := kind_name k\<rparr>) ls
      | Returns \<Rightarrow> []
      | Throws x \<Rightarrow> yields_of (st\<lparr>currentEvent := kind_name k\<rparr>) ls)"
  by (cases "try_body (st\<lparr>currentEvent := kind_name k\<rparr>) d")
     (simp_all add: yields_of_def event_lines_def process_event_line process_data_line
        process_blank_line yielded_append split: prod.splits)

lemma try_body_token:
  assumes "token_of d = Some t" and "currentEvent st = lit ''token''"
  shows "try_body st d = Yields (JStr t)"
proof -
  from assms(1) obtain v where p: "JSON_parse d = Some v" and g: "get_prop v (lit ''token'') = Some (JStr t)"
    by (auto simp: token_of_def split: option.splits jsvalue.splits)
  have ne: "lit ''token'' \<noteq> lit ''metadata''" by (simp add: lit_def)
  have "or_else (JStr t) (JStr []) = JStr t" by (simp add: or_else_def)
  with p g ne assms(2) show ?thesis by (simp add: try_body_def)
qed

lemma try_body_done:
  assumes "JSON_parse d \<noteq> None" and "currentEvent st = lit ''done''"
  shows "try_body st d = Returns"
proof -
  have "lit ''done'' \<noteq> lit ''metadata''" "lit ''done'' \<noteq> lit ''token''" by (simp_all add: lit_def)
  with assms show ?thesis by (auto simp: try_body_def)
qed

lemma try_body_metadata:
  assumes "currentEvent st = lit ''metadata''"
  shows "(\<exists>v. try_body st d = Normal v) \<or> (\<exists>e. try_body st d = Throws e)"
  using assms by (simp add: try_body_def split: option.splits)

lemma try_body_error:
  assumes "currentEvent st = lit ''error''"
  shows "\<exists>e. try_body st d = Throws e"
proof -
  have "lit ''error'' \<noteq> lit ''metadata''" "lit ''error'' \<noteq> lit ''token''" "lit ''error'' \<noteq> lit ''done''"
    by (simp_all add: lit_def)
  with assms show ?thesis by (simp add: try_body_def split: option.splits)
qed

lemma ys_events:
  "\<forall>ev \<in> set evs. well_formed ev \<Longrightarrow>
   yields_of st (concat (map (\<lambda>ev. map (\<lambda>l. l @ cr e) (event_lines ev)) evs))
     = map JStr (tokens_before_done evs)"
proof (induction evs arbitrary: st)
  case Nil
  then show ?case by (simp add: yields_of_def tokens_before_done_def token_values_def)
next
  case (Cons ev evs)
  obtain k d where ev: "ev = (k, d)" by (cases ev)
  from Cons.prems have wf: "well_formed (k, d)" and rest: "\<forall>ev \<in> set evs. well_formed ev"
    by (simp_all add: ev)
  note ih = Cons.IH [OF rest]
  let ?st = "st\<lparr>currentEvent := kind_name k\<rparr>"
  show ?case
  proof (cases k)
    case KMetadata
    from try_body_metadata [of ?st d] KMetadata ih show ?thesis
      by (auto simp: ev ys_event tokens_before_done_def token_values_def)
  next
    case KToken
    with wf obtain t where t: "token_of d = Some t" by (auto simp: well_formed_def)
    from try_body_token [OF t, of ?st] KToken have "try_body ?st d = Yields (JStr t)" by simp
    with KToken t ih show ?thesis
      by (simp add: ev ys_event tokens_before_done_def token_values_def)
  next
    case KDone
    with wf have "JSON_parse d \<noteq> None" by (simp add: well_formed_def)
    from try_body_done [OF this, of ?st] KDone have "try_body ?st d = Returns" by simp
    with KDone show ?thesis
      by (simp add: ev ys_event tokens_before_done_def token_values_def)
  next
    case KError
    from try_body_error [of ?st d] KError ih show ?thesis
      by (auto simp: ev ys_event tokens_before_done_def token_values_def)
  qed
qed

text \<open>
  Claim C1, as stated, is about every response body. The generator returns at a
  \<open>done\<close> event only once \<open>JSON.parse\<close> has accepted the data of the event, and it
  yields the empty string for a \<open>token\<close> event whose data has no truthy \<open>token\<close>
  field. On the body below, a \<open>token\<close> event with the data \<open>{}\<close>, a \<open>done\<close> event with
  empty data and a \<open>token\<close> event, no \<open>token\<close> field value precedes the first \<open>done\<close>
  event, and the generator yields the empty string and the later token.
\<close>

theorem streamMessage_unparsed_done_counterexample:
  \<open>snd (decode new_TextDecoder
       (ascii ''event: token'' @ [0x0A] @ ascii ''data: {}'' @ [0x0A, 0x0A]
          @ ascii ''event: done'' @ [0x0A] @ ascii ''data: '' @ [0x0A, 0x0A]
          @ ascii ''event: token'' @ [0x0A] @ ascii ''data: {"token": "late"}'' @ [0x0A, 0x0A]))
     = concat (map (wire LF) [(KToken, lit ''{}''), (KDone, []), (KToken, lit ''{"token": "late"}'')])
   \<and> tokens_before_done [(KToken, lit ''{}''), (KDone, []), (KToken, lit ''{"token": "late"}'')] = []
   \<and> yielded (observed (streamMessage (lit ''hi'') None None None
        (Body [ascii ''event: token'' @ [0x0A] @ ascii ''data: {}'' @ [0x0A, 0x0A]
                 @ ascii ''event: done'' @ [0x0A] @ ascii ''data: '' @ [0x0A, 0x0A]
                 @ ascii ''event: token'' @ [0x0A] @ ascii ''data: {"token": "late"}'' @ [0x0A, 0x0A]])))
       = [JStr [], JStr (lit ''late'')]\<close>
  by code_simp

text \<open>
  Claim C1, amended. For every response body whose bytes decode to a sequence of
  events, each of them a line \<open>event: <type>\<close> with one of the four types, a line
  \<open>data: <text>\<close> and an empty line, with all lines ended by LF or all by CRLF, in which
  the data of every \<open>token\<close> event is JSON with a string \<open>token\<close> field and the data
  of every \<open>done\<close> event is JSON, read in any chunks: the values \<open>streamMessage\<close>
  yields are exactly the \<open>token\<close> field values of the \<open>token\<close> events before the first
  \<open>done\<close> event, in stream order. Hence no \<open>metadata\<close>, \<open>done\<close> or \<open>error\<close> event is
  yielded, and nothing is yielded after the first \<open>done\<close> event.
\<close>

theorem streamMessage_tokens:
  assumes "\<forall>ev \<in> set evs. well_formed ev"
    and "snd (decode new_TextDecoder (concat chunks)) = concat (map (wire e) evs)"
  shows "yielded (observed (streamMessage msg sid img fmt (Body chunks)))
       = map JStr (tokens_before_done evs)"
proof -
  let ?st = "\<lparr> currentEvent = [], sessionIdRef = (case sid of None \<Rightarrow> JUndefined | Some i \<Rightarrow> JStr i) \<rparr>"
  have lf: "\<forall>ev \<in> set evs. 0x0A \<notin> set (snd ev)"
    using assms(1) by (simp add: well_formed_def)
  have "fst (read_loop new_TextDecoder [] ?st chunks)
      = fst (for_lines ?st (concat (map (\<lambda>ev. map (\<lambda>l. l @ cr e) (event_lines ev)) evs)))"
    by (simp add: observed_read_loop assms(2) split_nl_body [OF lf])
  then have "yielded (fst (read_loop new_TextDecoder [] ?st chunks))
      = yields_of ?st (concat (map (\<lambda>ev. map (\<lambda>l. l @ cr e) (event_lines ev)) evs))"
    by (simp add: yields_of_def)
  with ys_events [OF assms(1), of ?st e] show ?thesis
    by (simp add: streamMessage_def Let_def)
qed

theorem streamMessage_tokens_witness:
  \<open>yielded (observed (streamMessage (lit ''hi'') None None None
        (Body [ascii ''event: metadata'' @ [0x0D, 0x0A] @ ascii ''data: {"session_id": "s1"}'' @ [0x0D, 0x0A, 0x0D, 0x0A]
                 @ ascii ''event: token'' @ [0x0D, 0x0A] @ ascii ''data: {"token": "Hel"}'' @ [0x0D, 0x0A, 0x0D, 0x0A]
                 @ ascii ''event: tok'',
               ascii ''en'' @ [0x0D, 0x0A] @ ascii ''data: {"token": "lo"}'' @ [0x0D, 0x0A, 0x0D, 0x0A]
                 @ ascii ''event: error'' @ [0x0D, 0x0A] @ ascii ''data: {"error": "late"}'' @ [0x0D, 0x0A, 0x0D, 0x0A]
                 @ ascii ''event: token'' @ [0x0D, 0x0A] @ ascii ''data: {"token": ""}'' @ [0x0D, 0x0A, 0x0D, 0x0A]
                 @ ascii ''event: done'' @ [0x0D, 0x0A] @ ascii ''data: {}'' @ [0x0D, 0x0A, 0x0D, 0x0A]
                 @ ascii ''event: token'' @ [0x0D, 0x0A] @ ascii ''data: {"token": "ignored"}'' @ [0x0D, 0x0A, 0x0D, 0x0A]])))
     = [JStr (lit ''Hel''), JStr (lit ''lo''), JStr []]\<close>
proof -
  let ?evs = \<open>[(KMetadata, lit ''{"session_id": "s1"}''), (KToken, lit ''{"token": "Hel"}''),
                  (KToken, lit ''{"token": "lo"}''), (KError, lit ''{"error": "late"}''),
                  (KToken, lit ''{"token": ""}''), (KDone, lit ''{}''),
                  (KToken, lit ''{"token": "ignored"}'')]\<close>
  let ?chunks = \<open>[ascii ''event: metadata'' @ [0x0D, 0x0A] @ ascii ''data: {"session_id": "s1"}'' @ [0x0D, 0x0A, 0x0D, 0x0A]
                 @ ascii ''event: token'' @ [0x0D, 0x0A] @ ascii ''data: {"token": "Hel"}'' @ [0x0D, 0x0A, 0x0D, 0x0A]
                 @ ascii ''event: tok'',
               ascii ''en'' @ [0x0D, 0x0A] @ ascii ''data: {"token": "lo"}'' @ [0x0D, 0x0A, 0x0D, 0x0A]
                 @ ascii ''event: error'' @ [0x0D, 0x0A] @ ascii ''data: {"error": "late"}'' @ [0x0D, 0x0A, 0x0D, 0x0A]
                 @ ascii ''event: token'' @ [0x0D, 0x0A] @ ascii ''data: {"token": ""}'' @ [0x0D, 0x0A, 0x0D, 0x0A]
                 @ ascii ''event: done'' @ [0x0D, 0x0A] @ ascii ''data: {}'' @ [0x0D, 0x0A, 0x0D, 0x0A]
                 @ ascii ''event: token'' @ [0x0D, 0x0A] @ ascii ''data: {"token": "ignored"}'' @ [0x0D, 0x0A, 0x0D, 0x0A]]\<close>
  have wf: "\<forall>ev \<in> set ?evs. well_formed ev"
    by code_simp
  have tk: \<open>map JStr (tokens_before_done ?evs) = [JStr (lit ''Hel''), JStr (lit ''lo''), JStr []]\<close>
    by code_simp
  have bytes: "snd (decode new_TextDecoder (concat ?chunks)) = concat (map (wire CRLF) ?evs)"
    by code_simp
  from streamMessage_tokens [OF wf bytes, of "lit ''hi''" None None None] tk
  show ?thesis by simp
qed

section \<open>streamMessage: the error event\<close>

text \<open>
  Claim C2. An \<open>error\<close> event should end the generator with an exception carrying the
  message, and no token after it should be yielded. In the code the \<open>throw\<close> stands
  inside the \<open>try\<close> block whose \<open>catch\<close> logs and continues: on the body below, an \<open>error\<close>
  event followed by a \<open>token\<close> event, the error is logged to the console, the later
  token is yielded, and the generator returns normally.
\<close>

theorem streamMessage_error_event_swallowed:
  \<open>streamMessage (lit ''hi'') None None None
      (Body [ascii ''event: error'' @ [0x0A] @ ascii ''data: {"error": "model crashed"}'' @ [0x0A, 0x0A]
             @ ascii ''event: token'' @ [0x0A] @ ascii ''data: {"token": "late"}'' @ [0x0A, 0x0A]])
   = \<lparr> sent = \<lparr> message = lit ''hi'', session_id = None, image_prop = None, image_format = None \<rparr>,
       observed = [ConsoleError (lit ''{"error": "model crashed"}'')
                     (StreamError (JStr (lit ''model crashed''))),
                   Yield (JStr (lit ''late''))],
       completion = Finished \<rparr>\<close>
  by code_simp

section \<open>streamMessage: the message of an image-only request\<close>

text \<open>
  Claim C8. With a message that trims to the empty string and image data that is not
  blank, the message field of the request should be a single space. The condition of
  \<open>effectiveMessage\<close> is true as soon as the image data is not blank, and its true
  branch is \<open>message.trim()\<close>: the request carries the empty string, whatever the
  response is. The space is used only when message and image data are both blank.
\<close>

theorem streamMessage_image_only_message_empty:
  \<open>message (sent (streamMessage [] None (Some (lit ''iVBORw0KGgo='')) (Some (lit ''png'')) resp)) = []
   \<and> image_prop (sent (streamMessage [] None (Some (lit ''iVBORw0KGgo='')) (Some (lit ''png'')) resp))
       = Some (lit ''iVBORw0KGgo='')\<close>
  by (cases resp)
     (simp_all add: streamMessage_def requestBody_def effectiveMessage_def image_provided_def trim_def
        lit_def is_js_space_def Let_def split: prod.splits)

section \<open>DocumentManager: sorting and pages\<close>

lemma mset_insert_sorted: "mset (insert_sorted cmp x ys) = add_mset x (mset ys)"
  by (induction ys) simp_all

lemma mset_js_sort: "mset (js_sort cmp xs) = mset xs"
  by (induction xs) (simp_all add: js_sort_def mset_insert_sorted)

lemma take_min_length: "take (min a (length l)) l = take a l"
  by (cases "a \<le> length l") (simp_all add: min_def)

lemma paginated_take_drop:
  assumes "1 \<le> p"
  shows "paginatedDocuments docs p = take 9 (drop (nat ((p - 1) * 9)) docs)"
proof -
  let ?n = "int (length docs)"
  let ?s = "(p - 1) * 9"
  have s0: "0 \<le> ?s" using assms by simp
  have fin: "p * pageSize = ?s + 9" by (simp add: pageSize_def algebra_simps)
  show ?thesis
  proof (cases "?s \<le> ?n")
    case True
    with s0 have "nat (min (?s + 9) ?n - ?s) = min 9 (length (drop (nat ?s) docs))"
      by (simp add: min_def) arith
    with s0 True show ?thesis
      unfolding paginatedDocuments_def js_slice_def Let_def fin
      by (simp add: pageSize_def min_absorb1 take_min_length del: length_drop)
  next
    case False
    with s0 show ?thesis
      unfolding paginatedDocuments_def js_slice_def Let_def fin
      by (simp add: pageSize_def min_def)
  qed
qed

lemma length_paginated: "length (paginatedDocuments docs p) \<le> 9"
proof (cases "1 \<le> p")
  case True
  then show ?thesis by (simp add: paginated_take_drop)
next
  case False
  let ?n = "int (length docs)"
  from False have neg: "(p - 1) * pageSize < 0" by (simp add: pageSize_def)
  show ?thesis
  proof (cases "p = 0")
    case True
    then show ?thesis
      by (simp add: paginatedDocuments_def js_slice_def Let_def pageSize_def)
  next
    case nz: False
    with False have fneg: "p * pageSize < 0" by (simp add: pageSize_def)
    have "max (?n + p * pageSize) 0 - max (?n + (p - 1) * pageSize) 0 \<le> 9"
      by (simp add: pageSize_def max_def algebra_simps)
    then have "nat (max (?n + p * pageSize) 0 - max (?n + (p - 1) * pageSize) 0) \<le> 9"
      by simp
    with neg fneg show ?thesis
      unfolding paginatedDocuments_def js_slice_def Let_def by simp
  qed
qed

lemma concat_pages:
  "concat (map (\<lambda>i. take k (drop (i * k) xs)) [0..<m]) = take (m * k) xs"
proof (induction m)
  case 0
  then show ?case by simp
next
  case (Suc m)
  have "take (m * k) xs @ take k (drop (m * k) xs) = take (m * k + k) xs"
    by (simp add: take_add)
  with Suc show ?case by (simp add: add.commute)
qed

lemma upto_pages: "[1..int m] = map (\<lambda>i. int i + 1) [0..<m]"
proof (induction m)
  case 0
  then show ?case by simp
next
  case (Suc m)
  have "[1..int (Suc m)] = [1..int m] @ [int m + 1]"
    using upto_rec2 [of 1 "int m + 1"] by (simp add: add.commute)
  with Suc show ?case by simp
qed

lemma totalPages_nat: "totalPages docs = int ((length docs + 8) div 9)"
  unfolding totalPages_def pageSize_def by (simp add: zdiv_int)

lemma pages_cover:
  "concat (map (paginatedDocuments docs) [1..totalPages docs]) = docs"
proof -
  let ?m = "(length docs + 8) div 9"
  have "map (paginatedDocuments docs) [1..int ?m] = map (\<lambda>i. take 9 (drop (i * 9) docs)) [0..<?m]"
    unfolding upto_pages by (simp add: paginated_take_drop nat_mult_distrib)
  then have "concat (map (paginatedDocuments docs) [1..totalPages docs]) = take (?m * 9) docs"
    by (simp add: totalPages_nat concat_pages)
  moreover have "length docs \<le> ?m * 9" by arith
  ultimately show ?thesis by simp
qed

text \<open>
  Claim C9. For every document list and every sort mode (and whatever the locale's
  comparison and the engine's date parsing are), \<open>sortedDocuments\<close> is a permutation
  of the documents; every page slice has at most 9 entries; and the page slices of the
  pages 1 to \<open>totalPages\<close>, one after the other, are \<open>sortedDocuments\<close>, so that every
  position of the sorted list is shown on exactly one page.
\<close>

theorem sortedDocuments_pages:
  "mset (sortedDocuments localeCompare dateTime st docs) = mset docs
   \<and> (\<forall>p. length (paginatedDocuments (sortedDocuments localeCompare dateTime st docs) p) \<le> 9)
   \<and> concat (map (paginatedDocuments (sortedDocuments localeCompare dateTime st docs))
        [1..totalPages (sortedDocuments localeCompare dateTime st docs)])
      = sortedDocuments localeCompare dateTime st docs"
  by (simp add: pages_cover length_paginated) (simp add: sortedDocuments_def mset_js_sort)

section \<open>DocumentManager: validation of the URL\<close>

text \<open>
  Claim C4, as stated, is about the URL input itself. The handler validates the
  trimmed input: an input with a leading space does not start with \<open>http://\<close> or
  \<open>https://\<close>, and is ingested all the same.
\<close>

theorem handleAddUrl_untrimmed_counterexample:
  \<open>lit '' https://example.com/a'' \<noteq> []
   \<and> \<not> startsWith (lit '' https://example.com/a'') (lit ''http://'')
   \<and> \<not> startsWith (lit '' https://example.com/a'') (lit ''https://'')
   \<and> snd (handleAddUrl
         (Resolved (JObj [(lit ''documents'',
            JArr [JObj [(lit ''status'', JStr (lit ''ready'')), (lit ''chunk_count'', JNum 3 0)]])]))
         ListFailed
         (initial_manager_state\<lparr>urlInput := lit '' https://example.com/a''\<rparr>))
       = [IngestUrls [lit ''https://example.com/a''], GetDocumentList, OnDocumentsChange]\<close>
  by (simp add: handleAddUrl_def startsWith_def trim_def lit_def is_js_space_def Let_def
        firstDoc_def optional_prop_def initial_manager_state_def)

text \<open>
  Claim C4, amended. When the URL input, trimmed of white space, is empty, the handler
  returns with the state unchanged and no request; when it is not empty and starts
  with neither \<open>http://\<close> nor \<open>https://\<close>, the handler sets the validation error and
  nothing else, and makes no request. In both cases the document list, the counts and
  the dialog state are those of before.
\<close>

theorem handleAddUrl_rejects_invalid:
  "(trim (urlInput st) = [] \<longrightarrow> handleAddUrl ingest listing st = (st, []))
   \<and> (trim (urlInput st) \<noteq> []
        \<and> \<not> startsWith (trim (urlInput st)) (lit ''http://'')
        \<and> \<not> startsWith (trim (urlInput st)) (lit ''https://'')
      \<longrightarrow> handleAddUrl ingest listing st = (st\<lparr>error := Some MsgInvalidUrl\<rparr>, []))"
  by (simp add: handleAddUrl_def Let_def)

theorem handleAddUrl_rejects_invalid_witness:
  "handleAddUrl (Resolved JNull) ListFailed (initial_manager_state\<lparr>urlInput := lit ''   ''\<rparr>)
     = (initial_manager_state\<lparr>urlInput := lit ''   ''\<rparr>, [])
   \<and> handleAddUrl (Resolved JNull) ListFailed (initial_manager_state\<lparr>urlInput := lit ''ftp://example.com''\<rparr>)
     = (initial_manager_state\<lparr>urlInput := lit ''ftp://example.com'', error := Some MsgInvalidUrl\<rparr>, [])"
proof -
  have a: "trim (urlInput (initial_manager_state\<lparr>urlInput := lit ''   ''\<rparr>)) = []"
    by (simp add: trim_def lit_def is_js_space_def)
  have b: "trim (urlInput (initial_manager_state\<lparr>urlInput := lit ''ftp://example.com''\<rparr>)) \<noteq> []
      \<and> \<not> startsWith (trim (urlInput (initial_manager_state\<lparr>urlInput := lit ''ftp://example.com''\<rparr>))) (lit ''http://'')
      \<and> \<not> startsWith (trim (urlInput (initial_manager_state\<lparr>urlInput := lit ''ftp://example.com''\<rparr>))) (lit ''https://'')"
    by (simp add: trim_def lit_def is_js_space_def startsWith_def)
  from a handleAddUrl_rejects_invalid [of "initial_manager_state\<lparr>urlInput := lit ''   ''\<rparr>" "Resolved JNull" ListFailed]
  have c: "handleAddUrl (Resolved JNull) ListFailed (initial_manager_state\<lparr>urlInput := lit ''   ''\<rparr>)
     = (initial_manager_state\<lparr>urlInput := lit ''   ''\<rparr>, [])" by blast
  from b handleAddUrl_rejects_invalid [of "initial_manager_state\<lparr>urlInput := lit ''ftp://example.com''\<rparr>" "Resolved JNull" ListFailed]
  have d: "handleAddUrl (Resolved JNull) ListFailed (initial_manager_state\<lparr>urlInput := lit ''ftp://example.com''\<rparr>)
     = (initial_manager_state\<lparr>urlInput := lit ''ftp://example.com'', error := Some MsgInvalidUrl\<rparr>, [])"
    by blast
  from c d show ?thesis by simp
qed

section \<open>DocumentManager: an upload that did not succeed\<close>

text \<open>
  Claim C5. A response of an ingest whose status is not \<open>ready\<close> should be shown to
  the user as an error. \<open>handleFileSelect\<close> hands the \<open>status\<close> field to \<open>setError\<close> as
  it is, and \<open>uploadDocument\<close> returns the body of any response, an error response
  included. With the body of such a response, which has no \<open>status\<close> field, and with a
  status that is \<open>null\<close> or empty, the error state is falsy and no banner is rendered;
  no success message is set either, and only the upload was requested. A status that
  is a non-empty string is shown. \<open>handleAddUrl\<close>, given the same body, falls back to
  its fixed error text.
\<close>

theorem handleFileSelect_error_response_silent:
  \<open>\<not> error_shown (fst (handleFileSelect (Some \<lparr>name = lit ''notes.pdf''\<rparr>)
          (Resolved (JObj [(lit ''detail'', JStr (lit ''Unsupported file type''))]))
          listing initial_manager_state))
   \<and> successMsg (fst (handleFileSelect (Some \<lparr>name = lit ''notes.pdf''\<rparr>)
          (Resolved (JObj [(lit ''detail'', JStr (lit ''Unsupported file type''))]))
          listing initial_manager_state)) = None
   \<and> snd (handleFileSelect (Some \<lparr>name = lit ''notes.pdf''\<rparr>)
          (Resolved (JObj [(lit ''detail'', JStr (lit ''Unsupported file type''))]))
          listing initial_manager_state) = [UploadDocument \<lparr>name = lit ''notes.pdf''\<rparr>]
   \<and> \<not> error_shown (fst (handleFileSelect (Some \<lparr>name = lit ''notes.pdf''\<rparr>)
          (Resolved (JObj [(lit ''status'', JNull)])) listing initial_manager_state))
   \<and> \<not> error_shown (fst (handleFileSelect (Some \<lparr>name = lit ''notes.pdf''\<rparr>)
          (Resolved (JObj [(lit ''status'', JStr [])])) listing initial_manager_state))
   \<and> error_shown (fst (handleFileSelect (Some \<lparr>name = lit ''notes.pdf''\<rparr>)
          (Resolved (JObj [(lit ''status'', JStr (lit ''failed: empty file''))])) listing initial_manager_state))
   \<and> error (fst (handleAddUrl
          (Resolved (JObj [(lit ''detail'', JStr (lit ''Unsupported file type''))]))
          listing (initial_manager_state\<lparr>urlInput := lit ''https://example.com''\<rparr>)))
       = Some MsgAddUrlFailed\<close>
  by (simp add: handleFileSelect_def handleAddUrl_def error_shown_def status_error_def Let_def
        initial_manager_state_def firstDoc_def optional_prop_def trim_def is_js_space_def
        startsWith_def lit_def)

section \<open>ChatBox: when a request is sent\<close>

text \<open>
  Claim C6, as stated, makes the request depend on the text, the image and the request
  in flight only. With the backend marked unavailable the handler sends nothing, though
  the text is not empty and nothing is in flight: it clears the input and starts the
  timer of the warning.
\<close>

theorem handleSubmit_backend_down_counterexample:
  "trim (input (initial_chat_state\<lparr>input := lit ''hello'', isBackendAvailable := False\<rparr>)) \<noteq> []
   \<and> \<not> chat_state.isLoading (initial_chat_state\<lparr>input := lit ''hello'', isBackendAvailable := False\<rparr>)
   \<and> handleSubmit 0 None (initial_chat_state\<lparr>input := lit ''hello'', isBackendAvailable := False\<rparr>)
       = (initial_chat_state\<lparr>input := [], isBackendAvailable := False, chat_state.isLoading := True\<rparr>, WarnLater)
   \<and> request_of WarnLater = None"
  by (simp add: handleSubmit_def initial_chat_state_def trim_def lit_def is_js_space_def)

text \<open>
  Claim C6, amended. \<open>handleSubmit\<close> sends a chat request if and only if the input is
  not empty after trimming or an image is attached, no request is in flight, and the
  backend is marked available; it then calls \<open>streamMessage\<close> with the trimmed text,
  the session id and the image, so that an image with an empty text is sent. With
  something to send, nothing in flight and the backend marked unavailable, it sends
  nothing: it sets the loading flag, clears the input and the image selection, starts
  the timer of the warning, and leaves the messages as they are. With neither text nor
  image, and also with a request in flight, it returns with the state unchanged, having
  sent and appended nothing.
\<close>

theorem handleSubmit_sends:
  "(request_of (snd (handleSubmit now sessionId st)) \<noteq> None
      \<longleftrightarrow> (trim (input st) \<noteq> [] \<or> selectedImageData st \<noteq> [])
          \<and> \<not> chat_state.isLoading st \<and> isBackendAvailable st)
   \<and> ((trim (input st) \<noteq> [] \<or> selectedImageData st \<noteq> [])
        \<and> \<not> chat_state.isLoading st \<and> isBackendAvailable st
      \<longrightarrow> snd (handleSubmit now sessionId st)
            = Stream (trim (input st)) sessionId (selectedImageData st) (selectedImageFormat st)
          \<and> request_of (snd (handleSubmit now sessionId st))
            = Some (requestBody (trim (input st)) sessionId (Some (selectedImageData st))
                      (Some (selectedImageFormat st))))
   \<and> ((trim (input st) \<noteq> [] \<or> selectedImageData st \<noteq> [])
        \<and> \<not> chat_state.isLoading st \<and> \<not> isBackendAvailable st
      \<longrightarrow> handleSubmit now sessionId st
            = (st\<lparr>chat_state.isLoading := True, input := [], selectedImageData := [],
                  selectedImageFormat := []\<rparr>, WarnLater))
   \<and> (trim (input st) = [] \<and> selectedImageData st = []
      \<longrightarrow> handleSubmit now sessionId st = (st, Nothing))
   \<and> (chat_state.isLoading st \<longrightarrow> handleSubmit now sessionId st = (st, Nothing))"
  by (simp add: handleSubmit_def)

theorem handleSubmit_sends_witness:
  "snd (handleSubmit 0 None (initial_chat_state\<lparr>selectedImageData := lit ''iVBORw0KGgo='', selectedImageFormat := lit ''png''\<rparr>))
     = Stream [] None (lit ''iVBORw0KGgo='') (lit ''png'')
   \<and> handleSubmit 0 None (initial_chat_state\<lparr>input := lit ''hello'', isBackendAvailable := False\<rparr>)
     = (initial_chat_state\<lparr>input := [], isBackendAvailable := False, chat_state.isLoading := True\<rparr>, WarnLater)
   \<and> handleSubmit 0 None (initial_chat_state\<lparr>input := lit ''  ''\<rparr>) = (initial_chat_state\<lparr>input := lit ''  ''\<rparr>, Nothing)
   \<and> handleSubmit 0 None (initial_chat_state\<lparr>input := lit ''hello'', chat_state.isLoading := True\<rparr>)
     = (initial_chat_state\<lparr>input := lit ''hello'', chat_state.isLoading := True\<rparr>, Nothing)"
proof -
  let ?a = "initial_chat_state\<lparr>selectedImageData := lit ''iVBORw0KGgo='', selectedImageFormat := lit ''png''\<rparr>"
  let ?b = "initial_chat_state\<lparr>input := lit ''  ''\<rparr>"
  let ?c = "initial_chat_state\<lparr>input := lit ''hello'', isBackendAvailable := False\<rparr>"
  let ?d = "initial_chat_state\<lparr>input := lit ''hello'', chat_state.isLoading := True\<rparr>"
  have ha: "(trim (input ?a) \<noteq> [] \<or> selectedImageData ?a \<noteq> []) \<and> \<not> chat_state.isLoading ?a \<and> isBackendAvailable ?a"
    by (simp add: initial_chat_state_def lit_def)
  have hb: "trim (input ?b) = [] \<and> selectedImageData ?b = []"
    by (simp add: initial_chat_state_def trim_def lit_def is_js_space_def)
  have hc: "(trim (input ?c) \<noteq> [] \<or> selectedImageData ?c \<noteq> []) \<and> \<not> chat_state.isLoading ?c \<and> \<not> isBackendAvailable ?c"
    by (simp add: initial_chat_state_def trim_def lit_def is_js_space_def)
  have hd: "chat_state.isLoading ?d"
    by (simp add: initial_chat_state_def)
  from ha handleSubmit_sends [of 0 None ?a]
  have "snd (handleSubmit 0 None ?a) = Stream (trim (input ?a)) None (selectedImageData ?a) (selectedImageFormat ?a)"
    by blast
  then have a: "snd (handleSubmit 0 None ?a) = Stream [] None (lit ''iVBORw0KGgo='') (lit ''png'')"
    by (simp add: initial_chat_state_def trim_def)
  from hb handleSubmit_sends [of 0 None ?b] have b: "handleSubmit 0 None ?b = (?b, Nothing)"
    by blast
  from hc handleSubmit_sends [of 0 None ?c]
  have "handleSubmit 0 None ?c
      = (?c\<lparr>chat_state.isLoading := True, input := [], selectedImageData := [], selectedImageFormat := []\<rparr>, WarnLater)"
    by blast
  then have c: "handleSubmit 0 None ?c
      = (initial_chat_state\<lparr>input := [], isBackendAvailable := False, chat_state.isLoading := True\<rparr>, WarnLater)"
    by (simp add: initial_chat_state_def)
  from hd handleSubmit_sends [of 0 None ?d] have d: "handleSubmit 0 None ?d = (?d, Nothing)"
    by blast
  from a b c d show ?thesis by simp
qed

section \<open>ImageUploader: which files are selected\<close>

text \<open>
  Claim C10. The \<open>onImageSelect\<close> callback is called, or the preview changes, only for
  a file whose type starts with \<open>image/\<close> and whose size is at most 10485760 bytes. For
  a missing file, a file of another type or a larger file, the state (the preview
  included) is unchanged and the callback is not called.
\<close>

theorem image_handleFileSelect_guard:
  "((\<exists>d fmt. OnImageSelect d fmt \<in> set (snd (image_handleFileSelect file rd st)))
      \<or> preview (fst (image_handleFileSelect file rd st)) \<noteq> preview st
     \<longrightarrow> (\<exists>fl. file = Some fl \<and> startsWith (mime_type fl) (lit ''image/'') \<and> size_bytes fl \<le> 10485760))
   \<and> (file = None
        \<or> (\<exists>fl. file = Some fl \<and> (\<not> startsWith (mime_type fl) (lit ''image/'') \<or> 10485760 < size_bytes fl))
     \<longrightarrow> fst (image_handleFileSelect file rd st) = st
         \<and> (\<forall>d fmt. OnImageSelect d fmt \<notin> set (snd (image_handleFileSelect file rd st))))"
  by (auto simp: image_handleFileSelect_def onload_def split: option.splits read_outcome.splits if_splits)

theorem image_handleFileSelect_guard_witness:
  \<open>image_handleFileSelect (Some \<lparr>mime_type = lit ''image/png'', size_bytes = 2048\<rparr>)
      (ReadLoaded (Some (lit ''data:image/png;base64,iVBORw0KGgo=''))) \<lparr>preview = None, isDragging = False, isHovered = False\<rparr>
    = (\<lparr>preview = Some (lit ''data:image/png;base64,iVBORw0KGgo=''), isDragging = False, isHovered = False\<rparr>,
       [ReadAsDataURL \<lparr>mime_type = lit ''image/png'', size_bytes = 2048\<rparr>,
        OnImageSelect (Some (lit ''iVBORw0KGgo='')) (lit ''png'')])
   \<and> startsWith (lit ''image/png'') (lit ''image/'') \<and> (2048::nat) \<le> 10485760
   \<and> fst (image_handleFileSelect (Some \<lparr>mime_type = lit ''image/png'', size_bytes = 10485761\<rparr>)
      (ReadLoaded (Some (lit ''data:image/png;base64,iVBORw0KGgo=''))) \<lparr>preview = None, isDragging = False, isHovered = False\<rparr>)
      = \<lparr>preview = None, isDragging = False, isHovered = False\<rparr>\<close>
proof -
  let ?st = "\<lparr>preview = None, isDragging = False, isHovered = False\<rparr>"
  let ?ok = "\<lparr>mime_type = lit ''image/png'', size_bytes = 2048\<rparr>"
  let ?big = "\<lparr>mime_type = lit ''image/png'', size_bytes = 10485761\<rparr>"
  let ?rd = \<open>ReadLoaded (Some (lit ''data:image/png;base64,iVBORw0KGgo=''))\<close>
  have run: \<open>image_handleFileSelect (Some ?ok) ?rd ?st
    = (\<lparr>preview = Some (lit ''data:image/png;base64,iVBORw0KGgo=''), isDragging = False, isHovered = False\<rparr>,
       [ReadAsDataURL ?ok, OnImageSelect (Some (lit ''iVBORw0KGgo='')) (lit ''png'')])\<close>
    by (simp add: image_handleFileSelect_def onload_def startsWith_def lit_def base64Data_def
          match_here_def is_format_char_def)
  then have changed: "preview (fst (image_handleFileSelect (Some ?ok) ?rd ?st)) \<noteq> preview ?st"
    by simp
  have "\<exists>fl. Some ?ok = Some fl \<and> startsWith (mime_type fl) (lit ''image/'') \<and> size_bytes fl \<le> 10485760"
    using image_handleFileSelect_guard [of "Some ?ok" ?rd ?st] changed by blast
  then have a: "startsWith (lit ''image/png'') (lit ''image/'') \<and> (2048::nat) \<le> 10485760"
    by simp
  have "\<exists>fl. Some ?big = Some fl \<and> (\<not> startsWith (mime_type fl) (lit ''image/'') \<or> 10485760 < size_bytes fl)"
    by simp
  then have b: "fst (image_handleFileSelect (Some ?big) ?rd ?st) = ?st"
    using image_handleFileSelect_guard [of "Some ?big" ?rd ?st] by blast
  from run a b show ?thesis by simp
qed

end
